theory Spec2Isabelle
  imports
    Complex_Main
    "HOL-Library.Multiset"
    "HOL-Library.Char_ord"
    "HOL-Library.List_Lexorder"
begin

section \<open>AppleBBCH81: YOLO to COCO conversion and dataset splitting\<close>

text \<open>
  The development embeds three Python scripts:
  \<^item> \<^verbatim>\<open>scripts/convert_to_coco.py\<close> (the batch converter),
  \<^item> \<^verbatim>\<open>generate_individual_annotations.py\<close> (the single-image generator),
  \<^item> \<^verbatim>\<open>scripts/generate_splits.py\<close> (the split generator).

  Conventions of the embedding.
  Python floats are idealised as rationals (\<^typ>\<open>rat\<close>): every float is a rational
  number, and the arithmetic of the scripts is taken without rounding error; of the
  values \<^verbatim>\<open>inf\<close> and \<^verbatim>\<open>nan\<close> the model keeps the exceptions that \<^verbatim>\<open>int\<close> raises
  on them, and no arithmetic.
  Python integers are \<^typ>\<open>int\<close>. Strings are byte strings.
  A raised exception is a value of type \<open>exn\<close>.
  A private function \<^verbatim>\<open>_f\<close> is named \<open>f\<close>; where the two converters define a
  function of the same name, the one of \<^verbatim>\<open>convert_to_coco.py\<close> carries the suffix
  \<open>_cc\<close>.
\<close>

datatype exn = ValueError | OverflowError | UnidentifiedImageError | OSError

subsection \<open>Bounding boxes\<close>

text \<open>\<^verbatim>\<open>_yolo_to_coco_bbox\<close> of \<^verbatim>\<open>convert_to_coco.py\<close>.\<close>

definition yolo_to_coco_bbox_cc ::
  "rat \<Rightarrow> rat \<Rightarrow> rat \<Rightarrow> rat \<Rightarrow> int \<Rightarrow> int \<Rightarrow> rat \<times> rat \<times> rat \<times> rat" where
  "yolo_to_coco_bbox_cc xc yc w h width_px height_px =
     (let width = w * of_int width_px;
          height = h * of_int height_px;
          x = (xc * of_int width_px) - (width / 2);
          y = (yc * of_int height_px) - (height / 2)
      in (x, y, width, height))"

text \<open>
  \<^verbatim>\<open>yolo_to_coco_bbox\<close> of \<^verbatim>\<open>generate_individual_annotations.py\<close>. The argument
  is a list that the function unpacks into four variables; unpacking a list of another
  length raises \<^verbatim>\<open>ValueError\<close>.
\<close>

definition yolo_to_coco_bbox :: "rat list \<Rightarrow> int \<Rightarrow> int \<Rightarrow> exn + rat list" where
  "yolo_to_coco_bbox yolo_bbox img_width img_height =
     (case yolo_bbox of
        [center_x, center_y, width, height] \<Rightarrow>
          (let x = center_x * of_int img_width;
               y = center_y * of_int img_height;
               w = width * of_int img_width;
               h = height * of_int img_height
           in Inr [x, y, w, h])
      | _ \<Rightarrow> Inl ValueError)"

subsection \<open>Python built-ins used by the split generator\<close>

text \<open>
  \<^verbatim>\<open>round(x)\<close> on a float rounds to the nearest integer, and a tie to the even one.
\<close>

definition py_round :: "rat \<Rightarrow> int" where
  "py_round x =
     (let f = \<lfloor>x\<rfloor>; d = x - of_int f
      in if d < 1 / 2 then f
         else if 1 / 2 < d then f + 1
         else if even f then f else f + 1)"

text \<open>
  Slicing \<^verbatim>\<open>xs[lo:hi]\<close>: a negative bound counts from the end, and every bound is
  clamped into \<open>0..len(xs)\<close>; an absent bound is \<open>None\<close>.
\<close>

definition slice_index :: "int \<Rightarrow> int \<Rightarrow> int" where
  "slice_index n k = (if k < 0 then max (k + n) 0 else min k n)"

definition py_slice :: "'a list \<Rightarrow> int option \<Rightarrow> int option \<Rightarrow> 'a list" where
  "py_slice xs lo hi =
     (let n = int (length xs);
          a = (case lo of None \<Rightarrow> 0 | Some k \<Rightarrow> slice_index n k);
          b = (case hi of None \<Rightarrow> n | Some k \<Rightarrow> slice_index n k)
      in drop (nat a) (take (nat b) xs))"

subsection \<open>The split generator\<close>

text \<open>
  \<^verbatim>\<open>_split_stems\<close>. The standard library's generator is a parameter: \<open>shuffle seed xs\<close>
  is the list that \<^verbatim>\<open>rng = random.Random(seed); rng.shuffle(shuffled)\<close> leaves in the
  fresh copy \<^verbatim>\<open>shuffled = list(stems)\<close>. This is the function on values; the call as
  a step of the Python process, with the generator objects it creates and the hidden
  generator of the \<^verbatim>\<open>random\<close> module, follows it.
\<close>

definition split_stems ::
  "(int \<Rightarrow> string list \<Rightarrow> string list) \<Rightarrow> string list \<Rightarrow> rat \<Rightarrow> rat \<Rightarrow> rat \<Rightarrow> int
     \<Rightarrow> exn + (string list \<times> string list \<times> string list)" where
  "split_stems shuffle stems train_ratio val_ratio test_ratio seed =
     (if \<bar>(train_ratio + val_ratio + test_ratio) - 1\<bar> > 1 / 1000000 then Inl ValueError
      else
        let shuffled = shuffle seed stems;
            n = int (length shuffled);
            n_train = py_round (of_int n * train_ratio);
            n_val = py_round (of_int n * val_ratio);
            train = py_slice shuffled None (Some n_train);
            val = py_slice shuffled (Some n_train) (Some (n_train + n_val));
            test = py_slice shuffled (Some (n_train + n_val)) None
        in Inr (train, val, test))"

text \<open>
  The generators of a Python process: the hidden instance of the \<^verbatim>\<open>random\<close> module,
  which the module-level functions such as \<^verbatim>\<open>random.randint\<close> and \<^verbatim>\<open>random.shuffle\<close>
  use, and the \<^verbatim>\<open>random.Random\<close> objects the program has created, each with its own
  state of type \<open>'g\<close>. A reference to such an object is its index in \<open>rng_objects\<close>.
\<close>

record 'g process =
  hidden_rng :: 'g
  rng_objects :: "'g list"

text \<open>
  \<^verbatim>\<open>random.Random(seed)\<close> creates a new object, whose state \<open>seeded seed\<close> the library
  derives from the seed, and returns the reference to it. \<^verbatim>\<open>rng.shuffle(xs)\<close> reads
  and updates the state of the object \<open>rng\<close> refers to; the library's function
  \<open>shuffled_by\<close> gives the shuffled list and the state the generator is left in. A
  reference is only ever obtained from \<open>new_Random\<close>, so it is below the length of
  \<open>rng_objects\<close>.
\<close>

definition new_Random :: "(int \<Rightarrow> 'g) \<Rightarrow> int \<Rightarrow> 'g process \<Rightarrow> nat \<times> 'g process" where
  "new_Random seeded seed p =
     (length (rng_objects p), p\<lparr>rng_objects := rng_objects p @ [seeded seed]\<rparr>)"

definition rng_shuffle ::
  "('g \<Rightarrow> string list \<Rightarrow> string list \<times> 'g) \<Rightarrow> nat \<Rightarrow> string list \<Rightarrow> 'g process
     \<Rightarrow> string list \<times> 'g process" where
  "rng_shuffle shuffled_by rng xs p =
     (let (ys, g) = shuffled_by (rng_objects p ! rng) xs
      in (ys, p\<lparr>rng_objects := (rng_objects p)[rng := g]\<rparr>))"

text \<open>
  \<^verbatim>\<open>_split_stems\<close> as a step of the process: the statements of the function in their
  order, on the state of the generators. The result is the value returned or the
  exception raised, and the state the call leaves.
\<close>

definition split_stems_call ::
  "(int \<Rightarrow> 'g) \<Rightarrow> ('g \<Rightarrow> string list \<Rightarrow> string list \<times> 'g) \<Rightarrow> string list \<Rightarrow> rat \<Rightarrow> rat \<Rightarrow> rat
     \<Rightarrow> int \<Rightarrow> 'g process
     \<Rightarrow> (exn + (string list \<times> string list \<times> string list)) \<times> 'g process" where
  "split_stems_call seeded shuffled_by stems train_ratio val_ratio test_ratio seed p =
     (if \<bar>(train_ratio + val_ratio + test_ratio) - 1\<bar> > 1 / 1000000 then (Inl ValueError, p)
      else
        let (rng, p) = new_Random seeded seed p;
            shuffled = stems;
            (shuffled, p) = rng_shuffle shuffled_by rng shuffled p;
            n = int (length shuffled);
            n_train = py_round (of_int n * train_ratio);
            n_val = py_round (of_int n * val_ratio);
            train = py_slice shuffled None (Some n_train);
            val = py_slice shuffled (Some n_train) (Some (n_train + n_val));
            test = py_slice shuffled (Some (n_train + n_val)) None
        in (Inr (train, val, test), p))"

subsection \<open>Strings and paths\<close>

text \<open>
  \<^verbatim>\<open>str.isspace\<close> on the ASCII range; \<^verbatim>\<open>str.strip()\<close>; \<^verbatim>\<open>str.split()\<close>,
  which cuts at runs of whitespace and yields no empty token.
\<close>

definition is_space :: "char \<Rightarrow> bool" where
  "is_space c = (let k = (of_char c :: nat) in (9 \<le> k \<and> k \<le> 13) \<or> (28 \<le> k \<and> k \<le> 32))"

definition strip :: "string \<Rightarrow> string" where
  "strip s = rev (dropWhile is_space (rev (dropWhile is_space s)))"

fun split_from :: "string \<Rightarrow> string \<Rightarrow> string list" where
  "split_from cur [] = (if cur = [] then [] else [cur])"
| "split_from cur (c # cs) =
     (if is_space c then (if cur = [] then split_from [] cs else cur # split_from [] cs)
      else split_from (cur @ [c]) cs)"

definition py_split :: "string \<Rightarrow> string list" where
  "py_split s = split_from [] s"

text \<open>\<^verbatim>\<open>str.endswith\<close>, \<^verbatim>\<open>str.rfind\<close> of one character, \<^verbatim>\<open>str.lower\<close> on ASCII,
  and \<^verbatim>\<open>sep.join(rows)\<close>.\<close>

definition endswith :: "string \<Rightarrow> string \<Rightarrow> bool" where
  "endswith s t = (length t \<le> length s \<and> drop (length s - length t) s = t)"

definition rfind :: "char \<Rightarrow> string \<Rightarrow> int" where
  "rfind c s =
     (if c \<in> set s then int (length s) - 1 - int (length (takeWhile (\<lambda>x. x \<noteq> c) (rev s)))
      else - 1)"

definition lower_char :: "char \<Rightarrow> char" where
  "lower_char c =
     (let k = (of_char c :: nat) in if 65 \<le> k \<and> k \<le> 90 then char_of (k + 32) else c)"

definition lower :: "string \<Rightarrow> string" where
  "lower s = map lower_char s"

fun join :: "string \<Rightarrow> string list \<Rightarrow> string" where
  "join sep [] = []"
| "join sep [r] = r"
| "join sep (r # rs) = r @ sep @ join sep rs"

text \<open>
  \<^verbatim>\<open>PurePath.stem\<close> of a file name: the name up to its last dot, unless that dot is
  the first or the last character. \<^verbatim>\<open>os.path.splitext(name)[0]\<close>: the name up to its
  last dot, unless only dots come before it. \<^verbatim>\<open>dir / name\<close> joins with a slash.
\<close>

definition stem :: "string \<Rightarrow> string" where
  "stem name =
     (let i = rfind CHR ''.'' name
      in if 0 < i \<and> i < int (length name) - 1 then take (nat i) name else name)"

definition splitext_root :: "string \<Rightarrow> string" where
  "splitext_root p =
     (let dotIndex = rfind CHR ''.'' p
      in if dotIndex > - 1 \<and> length (takeWhile (\<lambda>c. c = CHR ''.'') p) < nat dotIndex
         then take (nat dotIndex) p else p)"

definition path_join :: "string \<Rightarrow> string \<Rightarrow> string" where
  "path_join d name = d @ ''/'' @ name"

text \<open>
  \<^verbatim>\<open>images_dir.glob("*.jpg")\<close> on the names of the directory's entries: the names that
  end in \<^verbatim>\<open>.jpg\<close>, case-sensitively.
\<close>

definition glob_jpg :: "string list \<Rightarrow> string list" where
  "glob_jpg names = filter (\<lambda>name. endswith name ''.jpg'') names"

subsection \<open>The split generator's command\<close>

text \<open>\<^verbatim>\<open>_collect_image_stems\<close>; the argument lists the entries of \<^verbatim>\<open>images_dir\<close>.\<close>

definition collect_image_stems :: "string list \<Rightarrow> string list" where
  "collect_image_stems names = sort (map stem (glob_jpg names))"

text \<open>
  \<^verbatim>\<open>_write_list\<close>. The files written are a map from path to content, passed through
  the command.
\<close>

definition write_list ::
  "string \<Rightarrow> string list \<Rightarrow> (string \<rightharpoonup> string) \<Rightarrow> (string \<rightharpoonup> string)" where
  "write_list path rows fs = fs(path \<mapsto> join [CHR 0x0A] rows @ [CHR 0x0A])"

text \<open>
  \<^verbatim>\<open>main\<close> of \<^verbatim>\<open>generate_splits.py\<close>, after argument parsing. It returns the
  exception that ended the run, if any, and the files as the run left them. The closing
  summary line on standard output is not modelled.
\<close>

definition main_generate_splits ::
  "(int \<Rightarrow> string list \<Rightarrow> string list) \<Rightarrow> string list \<Rightarrow> string \<Rightarrow> rat \<Rightarrow> rat \<Rightarrow> rat \<Rightarrow> int
     \<Rightarrow> (string \<rightharpoonup> string) \<Rightarrow> exn option \<times> (string \<rightharpoonup> string)" where
  "main_generate_splits shuffle names out train_arg val_arg test_arg seed fs =
     (let stems = collect_image_stems names
      in case split_stems shuffle stems train_arg val_arg test_arg seed of
           Inl e \<Rightarrow> (Some e, fs)
         | Inr (train, val, test) \<Rightarrow>
             (None,
              write_list (path_join out ''all.txt'') stems
                (write_list (path_join out ''train_val.txt'') (train @ val)
                  (write_list (path_join out ''test.txt'') test
                    (write_list (path_join out ''val.txt'') val
                      (write_list (path_join out ''train.txt'') train fs))))))"

subsection \<open>Input files and standard output\<close>

text \<open>
  What the converters read. \<open>listdir\<close> lists the names of the entries of the images
  directory, in the order the operating system gives them. \<open>decode name\<close> is the pixel
  size \<open>(width, height)\<close> that PIL reads from the image of that name, \<open>None\<close> when
  \<^verbatim>\<open>Image.open\<close> raises. \<open>getsize name\<close> is \<^verbatim>\<open>os.path.getsize\<close> of that image,
  \<open>None\<close> when it raises \<^verbatim>\<open>OSError\<close>. \<open>label_file name\<close> and
  \<open>split_file name\<close> are the lines of the file of that name in the labels directory and
  in the split directory, \<open>None\<close> when the file does not exist.
\<close>

record input_files =
  listdir :: "string list"
  decode :: "string \<Rightarrow> (int \<times> int) option"
  getsize :: "string \<Rightarrow> int option"
  label_file :: "string \<Rightarrow> string list option"
  split_file :: "string \<Rightarrow> string list option"

text \<open>The lines the scripts print, one constructor for each \<^verbatim>\<open>print\<close> statement.\<close>

datatype msg =
    Found_images_to_convert nat
  | Saved_COCO_JSON nat nat string
  | Error_reading_image string
  | Error_reading_label_file
  | Warning_label_file_not_found string
  | Generated string nat
  | Found_images_to_process nat
  | Processing int nat string
  | Error_processing string
  | Completed nat

text \<open>
  \<^verbatim>\<open>float(token)\<close> and \<^verbatim>\<open>int(token)\<close> on a string are parameters \<open>py_float\<close> and
  \<open>py_int\<close> of the label readers: \<open>Some\<close> of the finite value, \<open>None\<close> for
  \<^verbatim>\<open>ValueError\<close>. The parameter \<open>float_is_inf\<close> tells the tokens that \<^verbatim>\<open>float\<close>
  reads as an infinity (\<^verbatim>\<open>inf\<close>, \<^verbatim>\<open>-Infinity\<close>, \<^verbatim>\<open>1e999\<close>). \<^verbatim>\<open>int(x)\<close> on a finite
  float truncates towards zero; on an infinity it raises \<^verbatim>\<open>OverflowError\<close>, and on
  \<^verbatim>\<open>nan\<close> it raises \<^verbatim>\<open>ValueError\<close>, so that for \<^verbatim>\<open>int(float(token))\<close> a token that
  reads as \<^verbatim>\<open>nan\<close> counts with those \<open>py_float\<close> rejects. Infinite and \<^verbatim>\<open>nan\<close>
  coordinates are outside the model.
\<close>

definition int_of_float :: "rat \<Rightarrow> int" where
  "int_of_float x = (if 0 \<le> x then \<lfloor>x\<rfloor> else \<lceil>x\<rceil>)"

definition int_float :: "(string \<Rightarrow> rat option) \<Rightarrow> (string \<Rightarrow> bool) \<Rightarrow> string \<Rightarrow> exn + int" where
  "int_float py_float float_is_inf token =
     (if float_is_inf token then Inl OverflowError
      else case py_float token of None \<Rightarrow> Inl ValueError | Some x \<Rightarrow> Inr (int_of_float x))"

subsection \<open>The batch converter\<close>

record CocoImage =
  img_id :: int
  img_file_name :: string
  img_width :: int
  img_height :: int
  img_license :: int
  img_date_captured :: string

record CocoAnnotation =
  ann_id :: int
  ann_image_id :: int
  ann_category_id :: int
  ann_bbox :: "rat list"
  ann_area :: rat
  ann_iscrowd :: int
  ann_segmentation :: "rat list list option"

record category =
  cat_id :: int
  cat_name :: string
  cat_supercategory :: string

text \<open>
  The COCO dictionary; its constant \<^verbatim>\<open>info\<close> and \<^verbatim>\<open>licenses\<close> entries are left out.
\<close>

record coco =
  images :: "CocoImage list"
  annotations :: "CocoAnnotation list"
  categories :: "category list"

definition build_coco_dict :: coco where
  "build_coco_dict =
     \<lparr>images = [], annotations = [],
      categories = [\<lparr>cat_id = 1, cat_name = ''apple'', cat_supercategory = ''fruit''\<rparr>]\<rparr>"

text \<open>\<^verbatim>\<open>_read_split_file\<close>, on the lines of the file if it exists.\<close>

definition read_split_file :: "string list option \<Rightarrow> string list" where
  "read_split_file file =
     (case file of
        None \<Rightarrow> []
      | Some lines \<Rightarrow> map strip (filter (\<lambda>line. strip line \<noteq> []) lines))"

text \<open>\<^verbatim>\<open>_image_size\<close>: it has no handler, so a failure of \<^verbatim>\<open>Image.open\<close> is raised.\<close>

definition image_size :: "input_files \<Rightarrow> string \<Rightarrow> exn + (int \<times> int)" where
  "image_size inp name =
     (case decode inp name of None \<Rightarrow> Inl UnidentifiedImageError | Some wh \<Rightarrow> Inr wh)"

text \<open>
  \<^verbatim>\<open>_read_yolo_labels\<close>: the loop over the lines, then the function. The handler of
  \<^verbatim>\<open>ValueError\<close> encloses the five conversions of one line and catches nothing else:
  the \<^verbatim>\<open>OverflowError\<close> of the class token leaves the function.
\<close>

fun label_rows_cc ::
  "(string \<Rightarrow> rat option) \<Rightarrow> (string \<Rightarrow> bool) \<Rightarrow> string list
     \<Rightarrow> exn + (int \<times> rat \<times> rat \<times> rat \<times> rat) list" where
  "label_rows_cc py_float float_is_inf [] = Inr []"
| "label_rows_cc py_float float_is_inf (raw # rest) =
     (let raw = strip raw
      in if raw = [] then label_rows_cc py_float float_is_inf rest
         else
           (case py_split raw of
              [p0, p1, p2, p3, p4] \<Rightarrow>
                (case int_float py_float float_is_inf p0 of
                   Inl e \<Rightarrow>
                     if e = ValueError then label_rows_cc py_float float_is_inf rest else Inl e
                 | Inr cls \<Rightarrow>
                     (case (py_float p1, py_float p2, py_float p3, py_float p4) of
                        (Some xc, Some yc, Some w, Some h) \<Rightarrow>
                          (case label_rows_cc py_float float_is_inf rest of
                             Inl e \<Rightarrow> Inl e
                           | Inr rows \<Rightarrow> Inr ((cls, xc, yc, w, h) # rows))
                      | _ \<Rightarrow> label_rows_cc py_float float_is_inf rest))
            | _ \<Rightarrow> label_rows_cc py_float float_is_inf rest))"

definition read_yolo_labels_cc ::
  "(string \<Rightarrow> rat option) \<Rightarrow> (string \<Rightarrow> bool) \<Rightarrow> string list option
     \<Rightarrow> exn + (int \<times> rat \<times> rat \<times> rat \<times> rat) list" where
  "read_yolo_labels_cc py_float float_is_inf file =
     (case file of None \<Rightarrow> Inr [] | Some lines \<Rightarrow> label_rows_cc py_float float_is_inf lines)"

text \<open>
  \<^verbatim>\<open>_collect_image_paths\<close>; a path is given by its file name, the directory being the
  same for all.
\<close>

definition collect_image_paths :: "string list \<Rightarrow> string list option \<Rightarrow> string list" where
  "collect_image_paths names stems =
     (let candidates = sort (glob_jpg names)
      in case stems of
           None \<Rightarrow> candidates
         | Some ss \<Rightarrow> filter (\<lambda>p. stem p \<in> set ss) candidates)"

text \<open>
  The inner loop of \<^verbatim>\<open>convert_to_coco\<close> over the rows of one label file; it updates
  \<^verbatim>\<open>annotations\<close> and \<^verbatim>\<open>next_ann_id\<close>.
\<close>

fun annotate_rows ::
  "int \<Rightarrow> int \<Rightarrow> int \<Rightarrow> (int \<times> rat \<times> rat \<times> rat \<times> rat) list \<Rightarrow> CocoAnnotation list \<times> int
     \<Rightarrow> CocoAnnotation list \<times> int" where
  "annotate_rows image_id width height [] st = st"
| "annotate_rows image_id width height ((cls, xc, yc, w, h) # rows) (anns, next_ann_id) =
     (let category_id = 1;
          (x, y, ww, hh) = yolo_to_coco_bbox_cc xc yc w h width height
      in annotate_rows image_id width height rows
           (anns @ [\<lparr>ann_id = next_ann_id, ann_image_id = image_id,
                      ann_category_id = category_id, ann_bbox = [x, y, ww, hh],
                      ann_area = ww * hh, ann_iscrowd = 0, ann_segmentation = Some []\<rparr>],
            next_ann_id + 1))"

text \<open>
  The outer loop over \<^verbatim>\<open>enumerate(image_paths, start=1)\<close>; it updates \<^verbatim>\<open>images\<close>,
  \<^verbatim>\<open>annotations\<close> and \<^verbatim>\<open>next_ann_id\<close>, and ends at the first exception, of
  \<^verbatim>\<open>_image_size\<close> or of \<^verbatim>\<open>_read_yolo_labels\<close>.
\<close>

fun convert_images ::
  "(string \<Rightarrow> rat option) \<Rightarrow> (string \<Rightarrow> bool) \<Rightarrow> input_files \<Rightarrow> (int \<times> string) list
     \<Rightarrow> CocoImage list \<times> CocoAnnotation list \<times> int
     \<Rightarrow> exn + (CocoImage list \<times> CocoAnnotation list \<times> int)" where
  "convert_images py_float float_is_inf inp [] st = Inr st"
| "convert_images py_float float_is_inf inp ((image_id, path) # rest) (imgs, anns, next_ann_id) =
     (case image_size inp path of
        Inl e \<Rightarrow> Inl e
      | Inr (width, height) \<Rightarrow>
          (let imgs = imgs @ [\<lparr>img_id = image_id, img_file_name = path, img_width = width,
                               img_height = height, img_license = 1,
                               img_date_captured = ''2024-04-12''\<rparr>]
           in case read_yolo_labels_cc py_float float_is_inf
                     (label_file inp (stem path @ ''.txt'')) of
                Inl e \<Rightarrow> Inl e
              | Inr rows \<Rightarrow>
                  (let (anns, next_ann_id) =
                         annotate_rows image_id width height rows (anns, next_ann_id)
                   in convert_images py_float float_is_inf inp rest (imgs, anns, next_ann_id))))"

definition enumerate1 :: "'a list \<Rightarrow> (int \<times> 'a) list" where
  "enumerate1 xs = zip (map int [1 ..< Suc (length xs)]) xs"

text \<open>
  \<^verbatim>\<open>convert_to_coco\<close>. The state is the JSON documents written so far, by path, and the
  lines printed so far. The result is the exception that ended the call, if any, and
  the state as the call left it.
\<close>

type_synonym cc_state = "(string \<rightharpoonup> coco) \<times> msg list"

definition convert_to_coco ::
  "(string \<Rightarrow> rat option) \<Rightarrow> (string \<Rightarrow> bool) \<Rightarrow> input_files \<Rightarrow> string \<Rightarrow> string list option \<Rightarrow> cc_state
     \<Rightarrow> exn option \<times> cc_state" where
  "convert_to_coco py_float float_is_inf inp out_json stems st =
     (case st of (files, out) \<Rightarrow>
        let doc = build_coco_dict;
            image_paths = collect_image_paths (listdir inp) stems;
            out = out @ [Found_images_to_convert (length image_paths)]
        in (case convert_images py_float float_is_inf inp (enumerate1 image_paths) ([], [], 1) of
              Inl e \<Rightarrow> (Some e, (files, out))
            | Inr (imgs, anns, next_ann_id) \<Rightarrow>
                (let doc = doc\<lparr>images := imgs, annotations := anns\<rparr>
                 in (None,
                     (files(out_json \<mapsto> doc),
                      out @ [Saved_COCO_JSON (length imgs) (length anns) out_json])))))"

text \<open>
  \<^verbatim>\<open>main\<close> of \<^verbatim>\<open>convert_to_coco.py\<close>, after argument parsing: the loop over the
  requested splits, which an exception ends, and the command.
\<close>

fun convert_splits ::
  "(string \<Rightarrow> rat option) \<Rightarrow> (string \<Rightarrow> bool) \<Rightarrow> input_files \<Rightarrow> string \<Rightarrow> string list \<Rightarrow> cc_state
     \<Rightarrow> exn option \<times> cc_state" where
  "convert_splits py_float float_is_inf inp out [] st = (None, st)"
| "convert_splits py_float float_is_inf inp out (split # rest) st =
     (let stems = read_split_file (split_file inp (split @ ''.txt''));
          out_path = path_join out (''applebbch81_instances_'' @ split @ ''.json'')
      in case convert_to_coco py_float float_is_inf inp out_path (Some stems) st of
           (Some e, st') \<Rightarrow> (Some e, st')
         | (None, st') \<Rightarrow> convert_splits py_float float_is_inf inp out rest st')"

definition main_convert_to_coco ::
  "(string \<Rightarrow> rat option) \<Rightarrow> (string \<Rightarrow> bool) \<Rightarrow> input_files \<Rightarrow> string \<Rightarrow> string list \<Rightarrow> cc_state
     \<Rightarrow> exn option \<times> cc_state" where
  "main_convert_to_coco py_float float_is_inf inp out splits st =
     (if splits \<noteq> [] then convert_splits py_float float_is_inf inp out splits st
      else convert_to_coco py_float float_is_inf inp (path_join out ''applebbch81_instances_all.json'') None st)"

subsection \<open>The single-image generator\<close>

text \<open>
  \<^verbatim>\<open>generate_unique_id\<close> reads the process-wide random generator and the clock. The
  state \<open>'w\<close> of the two is passed through: \<open>randint\<close> is
  \<^verbatim>\<open>random.randint(1000000, 9999999)\<close> and \<open>time_ms\<close> is \<^verbatim>\<open>int(time.time() * 1000)\<close>,
  each with the state it leaves.
\<close>

definition generate_unique_id ::
  "('w \<Rightarrow> int \<times> 'w) \<Rightarrow> ('w \<Rightarrow> int \<times> 'w) \<Rightarrow> 'w \<Rightarrow> int \<times> 'w" where
  "generate_unique_id randint time_ms w =
     (let (random_part, w) = randint w;
          (t, w) = time_ms w;
          timestamp = t mod 1000;
          unique_id = random_part * 1000 + timestamp
      in (unique_id, w))"

record image_info =
  info_width :: int
  info_height :: int
  info_size :: int
  info_format :: string

text \<open>
  \<^verbatim>\<open>get_image_info\<close>, with what it prints. The handler encloses the reading of the
  image and of its size; its own call of \<^verbatim>\<open>os.path.getsize\<close> is enclosed by nothing, so
  that its exception leaves the function.
\<close>

definition get_image_info :: "input_files \<Rightarrow> string \<Rightarrow> (exn + image_info) \<times> msg list" where
  "get_image_info inp image_file =
     (let tried =
            (case decode inp image_file of
               None \<Rightarrow> None
             | Some (width, height) \<Rightarrow>
                 (case getsize inp image_file of
                    None \<Rightarrow> None
                  | Some file_size \<Rightarrow>
                      Some \<lparr>info_width = width, info_height = height, info_size = file_size,
                            info_format = ''JPEG''\<rparr>))
      in case tried of
           Some info \<Rightarrow> (Inr info, [])
         | None \<Rightarrow>
             (case getsize inp image_file of
                None \<Rightarrow> (Inl OSError, [Error_reading_image image_file])
              | Some file_size \<Rightarrow>
                  (Inr \<lparr>info_width = 640, info_height = 640, info_size = file_size,
                        info_format = ''JPEG''\<rparr>, [Error_reading_image image_file])))"

record yolo_annotation =
  class_id :: int
  center_x :: rat
  center_y :: rat
  width :: rat
  height :: rat

text \<open>
  \<^verbatim>\<open>read_yolo_annotations\<close>: the loop over the lines, which returns the annotations read
  and whether a conversion raised, then the function with what it prints. The handler
  encloses the whole loop, so the first \<^verbatim>\<open>ValueError\<close> ends the reading of the file.
\<close>

fun annotation_lines ::
  "(string \<Rightarrow> int option) \<Rightarrow> (string \<Rightarrow> rat option) \<Rightarrow> string list \<Rightarrow> yolo_annotation list
     \<Rightarrow> yolo_annotation list \<times> bool" where
  "annotation_lines py_int py_float [] anns = (anns, False)"
| "annotation_lines py_int py_float (line # rest) anns =
     (let line = strip line
      in if line \<noteq> [] then
           (case py_split line of
              [p0, p1, p2, p3, p4] \<Rightarrow>
                (case (py_int p0, py_float p1, py_float p2, py_float p3, py_float p4) of
                   (Some c, Some cx, Some cy, Some w, Some h) \<Rightarrow>
                     annotation_lines py_int py_float rest
                       (anns @ [\<lparr>class_id = c, center_x = cx, center_y = cy,
                                  width = w, height = h\<rparr>])
                 | _ \<Rightarrow> (anns, True))
            | _ \<Rightarrow> annotation_lines py_int py_float rest anns)
         else annotation_lines py_int py_float rest anns)"

definition read_yolo_annotations ::
  "(string \<Rightarrow> int option) \<Rightarrow> (string \<Rightarrow> rat option) \<Rightarrow> string list
     \<Rightarrow> yolo_annotation list \<times> msg list" where
  "read_yolo_annotations py_int py_float lines =
     (let (anns, raised) = annotation_lines py_int py_float lines []
      in (anns, if raised then [Error_reading_label_file] else []))"

record annotation_entry =
  ae_id :: int
  ae_image_id :: int
  ae_category_id :: int
  ae_segmentation :: "rat list list"
  ae_area :: rat
  ae_bbox :: "rat list"

record image_entry =
  ie_id :: int
  ie_width :: int
  ie_height :: int
  ie_file_name :: string
  ie_size :: int
  ie_format :: string
  ie_url :: string
  ie_hash :: string
  ie_status :: string

text \<open>The JSON template of one image; its constant \<^verbatim>\<open>info\<close> entry is left out.\<close>

record template =
  t_images :: "image_entry list"
  t_annotations :: "annotation_entry list"
  t_categories :: "category list"

definition create_annotation_template ::
  "('w \<Rightarrow> int \<times> 'w) \<Rightarrow> ('w \<Rightarrow> int \<times> 'w) \<Rightarrow> int \<Rightarrow> int \<Rightarrow> rat list \<Rightarrow> rat \<Rightarrow> 'w
     \<Rightarrow> annotation_entry \<times> 'w" where
  "create_annotation_template randint time_ms image_id category_id bbox area w =
     (let (i, w) = generate_unique_id randint time_ms w
      in (\<lparr>ae_id = i, ae_image_id = image_id, ae_category_id = category_id,
           ae_segmentation = [], ae_area = area, ae_bbox = bbox\<rparr>, w))"

text \<open>
  The loop of \<^verbatim>\<open>generate_individual_json\<close> over the annotations of the label file; it
  appends to the annotations of the template.
\<close>

fun convert_annotations ::
  "('w \<Rightarrow> int \<times> 'w) \<Rightarrow> ('w \<Rightarrow> int \<times> 'w) \<Rightarrow> int \<Rightarrow> int \<Rightarrow> image_info \<Rightarrow> yolo_annotation list
     \<Rightarrow> annotation_entry list \<times> 'w \<Rightarrow> exn option \<times> annotation_entry list \<times> 'w" where
  "convert_annotations randint time_ms image_id category_id info [] (anns, w) = (None, anns, w)"
| "convert_annotations randint time_ms image_id category_id info (yolo_ann # rest) (anns, w) =
     (let yolo_bbox = [center_x yolo_ann, center_y yolo_ann, width yolo_ann, height yolo_ann]
      in case yolo_to_coco_bbox yolo_bbox (info_width info) (info_height info) of
           Inl e \<Rightarrow> (Some e, anns, w)
         | Inr coco_bbox \<Rightarrow>
             (let area = coco_bbox ! 2 * coco_bbox ! 3;
                  (annotation, w) =
                    create_annotation_template randint time_ms image_id category_id coco_bbox area w
              in convert_annotations randint time_ms image_id category_id info rest
                   (anns @ [annotation], w)))"

text \<open>
  \<^verbatim>\<open>generate_individual_json\<close>. The state is the JSON files written so far, the lines
  printed so far, and the state of the random generator and clock. The images are read
  from \<^verbatim>\<open>data/images\<close> and the labels from \<^verbatim>\<open>data/labels\<close>.
\<close>

type_synonym 'w gia_state = "(string \<rightharpoonup> template) \<times> msg list \<times> 'w"

definition generate_individual_json ::
  "(string \<Rightarrow> int option) \<Rightarrow> (string \<Rightarrow> rat option) \<Rightarrow> ('w \<Rightarrow> int \<times> 'w) \<Rightarrow> ('w \<Rightarrow> int \<times> 'w)
     \<Rightarrow> input_files \<Rightarrow> string \<Rightarrow> string \<Rightarrow> 'w gia_state \<Rightarrow> exn option \<times> 'w gia_state" where
  "generate_individual_json py_int py_float randint time_ms inp image_file output_dir st =
     (case st of (files, out, w) \<Rightarrow>
        (case get_image_info inp image_file of
           (Inl e, printed) \<Rightarrow> (Some e, (files, out @ printed, w))
         | (Inr info, printed) \<Rightarrow>
             (let out = out @ printed;
                  (image_id, w) = generate_unique_id randint time_ms w;
                  (category_id, w) = generate_unique_id randint time_ms w;
                  label_filename = splitext_root image_file @ ''.txt'';
                  doc = \<lparr>t_images =
                           [\<lparr>ie_id = image_id, ie_width = info_width info,
                             ie_height = info_height info, ie_file_name = image_file,
                             ie_size = info_size info, ie_format = info_format info,
                             ie_url = [], ie_hash = [], ie_status = ''success''\<rparr>],
                         t_annotations = [],
                         t_categories =
                           [\<lparr>cat_id = category_id, cat_name = ''AppleBBCH81'',
                             cat_supercategory = ''apple''\<rparr>]\<rparr>;
                  (raised, anns, out, w) =
                    (case label_file inp label_filename of
                       Some lines \<Rightarrow>
                         (let (yolo_annotations, printed) =
                                read_yolo_annotations py_int py_float lines;
                              (raised, anns, w) =
                                convert_annotations randint time_ms image_id category_id info
                                  yolo_annotations ([], w)
                          in (raised, anns, out @ printed, w))
                     | None \<Rightarrow> (None, [], out @ [Warning_label_file_not_found image_file], w))
              in (case raised of
                    Some e \<Rightarrow> (Some e, (files, out, w))
                  | None \<Rightarrow>
                      (let doc = doc\<lparr>t_annotations := anns\<rparr>;
                           output_path =
                             path_join output_dir (splitext_root image_file @ ''.json'')
                       in (None,
                           (files(output_path \<mapsto> doc),
                            out @ [Generated output_path (length (t_annotations doc))], w)))))))"

text \<open>
  \<^verbatim>\<open>main\<close> of \<^verbatim>\<open>generate_individual_annotations.py\<close>: the selection of the image
  files, the loop over them, whose handler turns an exception into a printed line, and
  the command.
\<close>

definition image_files_of :: "string list \<Rightarrow> string list" where
  "image_files_of names =
     filter (\<lambda>f. endswith (lower f) ''.jpg'' \<or> endswith (lower f) ''.jpeg''
                \<or> endswith (lower f) ''.png'') names"

fun process_images ::
  "(string \<Rightarrow> int option) \<Rightarrow> (string \<Rightarrow> rat option) \<Rightarrow> ('w \<Rightarrow> int \<times> 'w) \<Rightarrow> ('w \<Rightarrow> int \<times> 'w)
     \<Rightarrow> input_files \<Rightarrow> nat \<Rightarrow> string \<Rightarrow> (int \<times> string) list \<Rightarrow> 'w gia_state \<Rightarrow> 'w gia_state" where
  "process_images py_int py_float randint time_ms inp n_files output_dir [] st = st"
| "process_images py_int py_float randint time_ms inp n_files output_dir ((i, image_file) # rest)
     (files, out, w) =
     (let out = out @ [Processing i n_files image_file]
      in case generate_individual_json py_int py_float randint time_ms inp image_file output_dir
                (files, out, w) of
           (None, st) \<Rightarrow>
             process_images py_int py_float randint time_ms inp n_files output_dir rest st
         | (Some e, (files, out, w)) \<Rightarrow>
             process_images py_int py_float randint time_ms inp n_files output_dir rest
               (files, out @ [Error_processing image_file], w))"

definition main_individual ::
  "(string \<Rightarrow> int option) \<Rightarrow> (string \<Rightarrow> rat option) \<Rightarrow> ('w \<Rightarrow> int \<times> 'w) \<Rightarrow> ('w \<Rightarrow> int \<times> 'w)
     \<Rightarrow> input_files \<Rightarrow> 'w gia_state \<Rightarrow> 'w gia_state" where
  "main_individual py_int py_float randint time_ms inp st =
     (case st of (files, out, w) \<Rightarrow>
        let output_dir = ''data/images'';
            image_files = image_files_of (listdir inp);
            out = out @ [Found_images_to_process (length image_files)];
            (files, out, w) =
              process_images py_int py_float randint time_ms inp (length image_files) output_dir
                (enumerate1 image_files) (files, out, w)
        in (files, out @ [Completed (length image_files)], w))"

subsection \<open>Decimal literals\<close>

text \<open>
  Instances of the parameters \<open>py_int\<close> and \<open>py_float\<close>, for running the readers
  on concrete files: an optional sign and decimal digits, with an optional fraction for
  floats. \<^verbatim>\<open>int\<close> and \<^verbatim>\<open>float\<close> accept these literals with these values, and
  more (exponents, underscores, \<^verbatim>\<open>inf\<close>); both reject the token \<^verbatim>\<open>x\<close> of the
  examples below with \<^verbatim>\<open>ValueError\<close>.
\<close>

fun digits_value :: "string \<Rightarrow> nat \<Rightarrow> nat option" where
  "digits_value [] acc = Some acc"
| "digits_value (c # cs) acc =
     (let k = (of_char c :: nat)
      in if 48 \<le> k \<and> k \<le> 57 then digits_value cs (10 * acc + (k - 48)) else None)"

definition unsigned_int :: "string \<Rightarrow> nat option" where
  "unsigned_int s = (if s = [] then None else digits_value s 0)"

definition unsigned_float :: "string \<Rightarrow> rat option" where
  "unsigned_float s =
     (let ip = takeWhile (\<lambda>c. c \<noteq> CHR ''.'') s;
          r = dropWhile (\<lambda>c. c \<noteq> CHR ''.'') s
      in if r = [] then map_option of_nat (unsigned_int ip)
         else if ip = [] \<and> tl r = [] then None
         else (case (digits_value ip 0, digits_value (tl r) 0) of
                 (Some a, Some b) \<Rightarrow> Some (of_nat a + of_nat b / 10 ^ length (tl r))
               | _ \<Rightarrow> None))"

definition signed :: "(string \<Rightarrow> 'a option) \<Rightarrow> ('a \<Rightarrow> 'b) \<Rightarrow> ('a \<Rightarrow> 'b) \<Rightarrow> string \<Rightarrow> 'b option" where
  "signed p pos neg s =
     (if s = [] then None
      else if hd s = CHR ''-'' then map_option neg (p (tl s))
      else if hd s = CHR ''+'' then map_option pos (p (tl s))
      else map_option pos (p s))"

definition decimal_int :: "string \<Rightarrow> int option" where
  "decimal_int = signed unsigned_int int (\<lambda>n. - int n)"

definition decimal_float :: "string \<Rightarrow> rat option" where
  "decimal_float = signed unsigned_float (\<lambda>x. x) uminus"

text \<open>
  An instance of \<open>float_is_inf\<close>: the spellings \<^verbatim>\<open>inf\<close> and \<^verbatim>\<open>infinity\<close>, in any
  case and with an optional sign.
\<close>

definition decimal_is_inf :: "string \<Rightarrow> bool" where
  "decimal_is_inf s =
     (let t = (if s \<noteq> [] \<and> (hd s = CHR ''-'' \<or> hd s = CHR ''+'') then tl s else s)
      in lower t = ''inf'' \<or> lower t = ''infinity'')"

section \<open>Properties\<close>

subsection \<open>Bounding-box conversion\<close>

text \<open>
  C1 (amended). For every YOLO box \<open>(cx, cy, w, h)\<close> and every image of pixel size
  \<open>W \<times> H\<close>, \<^verbatim>\<open>_yolo_to_coco_bbox\<close> of the batch converter yields width \<open>w * W\<close>,
  height \<open>h * H\<close> and top-left corner \<open>x = cx * W - (w * W) / 2\<close>,
  \<open>y = cy * H - (h * H) / 2\<close>; the box \<open>(0.5, 0.5, 0.2, 0.4)\<close> on a 100 by 200 image
  converts to \<open>(x = 40, y = 60, w = 20, h = 80)\<close>.
\<close>

theorem c1_bbox_formula:
  "yolo_to_coco_bbox_cc cx cy w h W H =
     (cx * of_int W - (w * of_int W) / 2, cy * of_int H - (h * of_int H) / 2,
      w * of_int W, h * of_int H)
   \<and> yolo_to_coco_bbox_cc (1/2) (1/2) (1/5) (2/5) 100 200 = (40, 60, 20, 80)"
  by (simp add: yolo_to_coco_bbox_cc_def Let_def)

text \<open>
  The box of the claim's example does not have \<open>y = 20\<close>: half of the pixel height 80
  is taken from the centre 100.
\<close>

theorem c1_example_counterexample:
  "yolo_to_coco_bbox_cc (1/2) (1/2) (1/5) (2/5) 100 200 \<noteq> (40, 20, 20, 80)"
  by (simp add: yolo_to_coco_bbox_cc_def Let_def)

text \<open>
  The function of the same purpose in the single-image generator returns the centre of
  the box where the corner is expected.
\<close>

lemma yolo_to_coco_bbox_centre:
  "yolo_to_coco_bbox [1/2, 1/2, 1/5, 2/5] 100 200 = Inr [50, 100, 20, 80]"
  by (simp add: yolo_to_coco_bbox_def Let_def)

lemma yolo_to_coco_bbox_four:
  "yolo_to_coco_bbox [cx, cy, w, h] W H = Inr [cx * of_int W, cy * of_int H, w * of_int W, h * of_int H]"
  by (simp add: yolo_to_coco_bbox_def Let_def)

subsection \<open>The split generator\<close>

lemma py_round_nonneg: "0 \<le> x \<Longrightarrow> 0 \<le> py_round x"
  by (simp add: py_round_def Let_def)

lemma py_slice_partition:
  assumes "0 \<le> t" "0 \<le> v"
  shows "py_slice s None (Some t) @ py_slice s (Some t) (Some (t + v))
           @ py_slice s (Some (t + v)) None = s"
proof -
  define a where "a = nat (min t (int (length s)))"
  define b where "b = nat (min (t + v) (int (length s)))"
  have ab: "a \<le> b" using assms by (simp add: a_def b_def)
  have 1: "py_slice s None (Some t) = take a s"
    using assms by (simp add: py_slice_def slice_index_def a_def Let_def)
  have 2: "py_slice s (Some t) (Some (t + v)) = drop a (take b s)"
    using assms by (simp add: py_slice_def slice_index_def a_def b_def Let_def)
  have 3: "py_slice s (Some (t + v)) None = drop b s"
    using assms by (simp add: py_slice_def slice_index_def b_def Let_def)
  have "take a s = take a (take b s)" using ab by (simp add: min_def)
  then have "take a s @ drop a (take b s) = take b s"
    by (metis append_take_drop_id)
  then have "(take a s @ drop a (take b s)) @ drop b s = s"
    by (simp only: append_take_drop_id)
  then show ?thesis by (simp only: 1 2 3 append_assoc)
qed

text \<open>
  C2 (amended). For every list of identifiers, every seed whose shuffle permutes the
  list, and every ratio triple that passes the sum validation and whose train and val
  ratios are not negative, \<^verbatim>\<open>_split_stems\<close> returns three lists that are consecutive
  segments of the shuffled list: their multiset union is the input list, their lengths
  add up to its length, and they are pairwise disjoint when the identifiers are
  distinct.
\<close>

theorem c2_split_partition:
  assumes perm: "mset (shuffle seed stems) = mset stems"
    and nonneg: "0 \<le> train_ratio" "0 \<le> val_ratio"
    and valid: "\<bar>(train_ratio + val_ratio + test_ratio) - 1\<bar> \<le> 1 / 1000000"
  shows "\<exists>train val test.
           split_stems shuffle stems train_ratio val_ratio test_ratio seed = Inr (train, val, test)
           \<and> train @ val @ test = shuffle seed stems
           \<and> mset train + mset val + mset test = mset stems
           \<and> length train + length val + length test = length stems
           \<and> (distinct stems \<longrightarrow>
                set train \<inter> set val = {} \<and> set train \<inter> set test = {} \<and> set val \<inter> set test = {})"
proof -
  define s where "s = shuffle seed stems"
  define t where "t = py_round (of_int (int (length s)) * train_ratio)"
  define v where "v = py_round (of_int (int (length s)) * val_ratio)"
  define train where "train = py_slice s None (Some t)"
  define val where "val = py_slice s (Some t) (Some (t + v))"
  define test where "test = py_slice s (Some (t + v)) None"
  have t0: "0 \<le> t" unfolding t_def using nonneg(1) by (intro py_round_nonneg) simp
  have v0: "0 \<le> v" unfolding v_def using nonneg(2) by (intro py_round_nonneg) simp
  have res: "split_stems shuffle stems train_ratio val_ratio test_ratio seed = Inr (train, val, test)"
    using valid by (simp add: split_stems_def Let_def s_def t_def v_def train_def val_def test_def)
  have cat: "train @ val @ test = s"
    unfolding train_def val_def test_def using t0 v0 by (rule py_slice_partition)
  have ms: "mset train + mset val + mset test = mset stems"
  proof -
    have "mset (train @ val @ test) = mset stems" using cat perm by (simp add: s_def)
    then show ?thesis by (simp add: ac_simps)
  qed
  have len: "length train + length val + length test = length stems"
  proof -
    have "size (mset train + mset val + mset test) = size (mset stems)" using ms by simp
    then show ?thesis by simp
  qed
  have dis: "set train \<inter> set val = {} \<and> set train \<inter> set test = {} \<and> set val \<inter> set test = {}"
    if "distinct stems"
  proof -
    have "distinct s" using that perm by (metis mset_eq_imp_distinct_iff s_def)
    then have "distinct (train @ val @ test)" by (simp add: cat)
    then show ?thesis by auto
  qed
  show ?thesis using res cat ms len dis by (auto simp: s_def)
qed

theorem c2_split_partition_witness:
  "\<exists>train val test.
     split_stems (\<lambda>seed. rev) [''a'', ''b'', ''c'', ''d'', ''e''] (4/5) (1/10) (1/10) 42
       = Inr (train, val, test)
     \<and> train @ val @ test = [''e'', ''d'', ''c'', ''b'', ''a'']
     \<and> length train + length val + length test = 5
     \<and> set train \<inter> set val = {} \<and> set train \<inter> set test = {} \<and> set val \<inter> set test = {}"
proof -
  let ?L = "[''a'', ''b'', ''c'', ''d'', ''e'']"
  have "\<exists>train val test.
           split_stems (\<lambda>seed. rev) ?L (4/5) (1/10) (1/10) 42 = Inr (train, val, test)
           \<and> train @ val @ test = rev ?L
           \<and> mset train + mset val + mset test = mset ?L
           \<and> length train + length val + length test = length ?L
           \<and> (distinct ?L \<longrightarrow>
                set train \<inter> set val = {} \<and> set train \<inter> set test = {} \<and> set val \<inter> set test = {})"
    by (rule c2_split_partition [of "\<lambda>seed. rev" 42 ?L "4/5" "1/10" "1/10"]) simp_all
  then obtain train val test where
    r: "split_stems (\<lambda>seed. rev) ?L (4/5) (1/10) (1/10) 42 = Inr (train, val, test)"
    and c: "train @ val @ test = rev ?L"
    and l: "length train + length val + length test = length ?L"
    and d: "distinct ?L \<longrightarrow>
                set train \<inter> set val = {} \<and> set train \<inter> set test = {} \<and> set val \<inter> set test = {}"
    by blast
  have dl: "distinct ?L" by simp
  have c': "train @ val @ test = [''e'', ''d'', ''c'', ''b'', ''a'']" using c by simp
  have l': "length train + length val + length test = 5" using l by simp
  from d dl have d': "set train \<inter> set val = {} \<and> set train \<inter> set test = {} \<and> set val \<inter> set test = {}"
    by (rule mp)
  show ?thesis using r c' l' d' by blast
qed

text \<open>
  With a negative val ratio the validation still passes, and the one identifier of the
  list is returned both in train and in test. Every permutation of a one-element list
  is the list itself.
\<close>

theorem c2_negative_ratio_counterexample:
  "split_stems (\<lambda>seed xs. xs) [''a''] 1 (- 1) 1 0 = Inr ([''a''], [], [''a''])"
  by (simp add: split_stems_def py_round_def py_slice_def slice_index_def Let_def)

lemma split_stems_call_value:
  "fst (split_stems_call seeded shuffled_by stems tr vr ter seed p) =
     split_stems (\<lambda>seed xs. fst (shuffled_by (seeded seed) xs)) stems tr vr ter seed"
  by (simp add: split_stems_call_def split_stems_def new_Random_def rng_shuffle_def Let_def
      split: prod.splits)

lemma split_stems_call_state:
  "hidden_rng (snd (split_stems_call seeded shuffled_by stems tr vr ter seed p)) = hidden_rng p
   \<and> take (length (rng_objects p))
        (rng_objects (snd (split_stems_call seeded shuffled_by stems tr vr ter seed p)))
      = rng_objects p"
  by (simp add: split_stems_call_def new_Random_def rng_shuffle_def Let_def split: prod.splits)

text \<open>
  C3. The lists \<^verbatim>\<open>_split_stems\<close> returns, or the exception it raises, are the same in
  every state of the generators of the process: whatever the hidden generator of the
  \<^verbatim>\<open>random\<close> module and the \<^verbatim>\<open>random.Random\<close> objects created before hold, and so
  whatever ran before the call, two calls with the same identifiers, ratios and seed
  return the same three lists. The call leaves the hidden generator and the objects
  created before it as they were.
\<close>

theorem c3_split_deterministic:
  "fst (split_stems_call seeded shuffled_by stems tr vr ter seed p) =
     fst (split_stems_call seeded shuffled_by stems tr vr ter seed p')
   \<and> hidden_rng (snd (split_stems_call seeded shuffled_by stems tr vr ter seed p)) = hidden_rng p
   \<and> take (length (rng_objects p))
        (rng_objects (snd (split_stems_call seeded shuffled_by stems tr vr ter seed p)))
      = rng_objects p"
  by (simp only: split_stems_call_value split_stems_call_state)

text \<open>
  Two calls in a row, the second in the state the first has left, with a generator
  whose state is a number and whose shuffle rotates the list by it.
\<close>

theorem c3_split_deterministic_witness:
  "fst (split_stems_call (\<lambda>seed. nat \<bar>seed\<bar>) (\<lambda>g xs. (rotate g xs, Suc g))
          [''a'', ''b'', ''c'', ''d'', ''e''] (4/5) (1/10) (1/10) 42
          \<lparr>hidden_rng = 7, rng_objects = []\<rparr>) =
   fst (split_stems_call (\<lambda>seed. nat \<bar>seed\<bar>) (\<lambda>g xs. (rotate g xs, Suc g))
          [''a'', ''b'', ''c'', ''d'', ''e''] (4/5) (1/10) (1/10) 42
          (snd (split_stems_call (\<lambda>seed. nat \<bar>seed\<bar>) (\<lambda>g xs. (rotate g xs, Suc g))
                  [''a'', ''b'', ''c'', ''d'', ''e''] (4/5) (1/10) (1/10) 42
                  \<lparr>hidden_rng = 7, rng_objects = []\<rparr>)))"
  by (rule c3_split_deterministic [THEN conjunct1])

lemma split_stems_call_example:
  "split_stems_call (\<lambda>seed. nat \<bar>seed\<bar>) (\<lambda>g xs. (rotate g xs, Suc g))
     [''a'', ''b'', ''c'', ''d'', ''e''] (4/5) (1/10) (1/10) 42 \<lparr>hidden_rng = 7, rng_objects = [3]\<rparr>
   = (Inr ([''c'', ''d'', ''e'', ''a''], [], [''b'']), \<lparr>hidden_rng = 7, rng_objects = [3, 43]\<rparr>)"
  by code_simp

text \<open>
  The identifiers of the single-image generator, which come from the hidden generator
  and the clock, do depend on the state they are drawn in.
\<close>

lemma generate_unique_id_reads_state:
  "fst (generate_unique_id (\<lambda>w. (1000000 + int w, Suc w)) (\<lambda>w. (int w, Suc w)) (1 :: nat))
   \<noteq> fst (generate_unique_id (\<lambda>w. (1000000 + int w, Suc w)) (\<lambda>w. (int w, Suc w)) 2)"
  by (simp add: generate_unique_id_def)

text \<open>
  C4. When the three ratios differ from 1 by more than \<open>10\<^sup>-\<^sup>6\<close> in sum,
  \<^verbatim>\<open>_split_stems\<close> raises \<^verbatim>\<open>ValueError\<close> whatever the shuffle would give, and the command
  leaves the files as they were; otherwise \<^verbatim>\<open>_split_stems\<close> returns and the command
  ends without an exception.
\<close>

theorem c4_ratio_validation:
  "(\<bar>(tr + vr + ter) - 1\<bar> > 1 / 1000000 \<longrightarrow>
      split_stems shuffle stems tr vr ter seed = Inl ValueError
      \<and> main_generate_splits shuffle names out tr vr ter seed fs = (Some ValueError, fs))
   \<and> (\<not> \<bar>(tr + vr + ter) - 1\<bar> > 1 / 1000000 \<longrightarrow>
      (\<exists>r. split_stems shuffle stems tr vr ter seed = Inr r)
      \<and> fst (main_generate_splits shuffle names out tr vr ter seed fs) = None)"
  by (simp add: split_stems_def main_generate_splits_def Let_def)

theorem c4_ratio_validation_witness:
  "split_stems (\<lambda>s. rev) [''a'', ''b''] (4/5) (1/10) (1/5) 42 = Inl ValueError
   \<and> main_generate_splits (\<lambda>s. rev) [''a.jpg'', ''b.jpg''] ''sets'' (4/5) (1/10) (1/5) 42 Map.empty
       = (Some ValueError, Map.empty)
   \<and> (\<exists>r. split_stems (\<lambda>s. rev) [''a'', ''b''] (4/5) (1/10) (1/10) 42 = Inr r)
   \<and> fst (main_generate_splits (\<lambda>s. rev) [''a.jpg'', ''b.jpg''] ''sets'' (4/5) (1/10) (1/10) 42 Map.empty) = None"
  using c4_ratio_validation [of "4/5" "1/10" "1/5" "\<lambda>s. rev" "[''a'', ''b'']" 42 "[''a.jpg'', ''b.jpg'']" "''sets''" Map.empty]
    c4_ratio_validation [of "4/5" "1/10" "1/10" "\<lambda>s. rev" "[''a'', ''b'']" 42 "[''a.jpg'', ''b.jpg'']" "''sets''" Map.empty]
  by simp

subsection \<open>Enumeration of the images\<close>

lemma lower_drop: "lower (drop k f) = drop k (lower f)"
  by (simp add: lower_def drop_map)

lemma endswith_lower:
  assumes "endswith f e" "lower e = e"
  shows "endswith (lower f) e"
proof -
  from assms(1) have le: "length e \<le> length f" and d: "drop (length f - length e) f = e"
    by (simp_all add: endswith_def)
  have "drop (length (lower f) - length e) (lower f) = lower (drop (length f - length e) f)"
    by (simp add: lower_def drop_map)
  also have "\<dots> = e" using d assms(2) by simp
  finally show ?thesis using le by (simp add: endswith_def lower_def)
qed

lemma lower_exts: "lower ''.jpg'' = ''.jpg''" "lower ''.jpeg'' = ''.jpeg''" "lower ''.png'' = ''.png''"
  by (simp_all add: lower_def lower_char_def)

lemma sorted_collect_image_paths: "sorted (collect_image_paths names stems)"
  by (cases stems) (simp_all add: collect_image_paths_def Let_def sorted_filter[where f="\<lambda>x. x", simplified])

lemma endswith_iff: "endswith s t \<longleftrightarrow> (\<exists>u. s = u @ t)"
proof
  assume "endswith s t"
  then have "take (length s - length t) s @ t = s"
    by (metis append_take_drop_id endswith_def)
  then show "\<exists>u. s = u @ t" by metis
next
  assume "\<exists>u. s = u @ t"
  then show "endswith s t" by (auto simp: endswith_def)
qed

text \<open>
  C8 (amended). The batch converter enumerates exactly the entries of the images
  directory whose name ends in \<^verbatim>\<open>.jpg\<close>, each once, sorted by name; entries that end in
  \<^verbatim>\<open>.jpeg\<close> or \<^verbatim>\<open>.png\<close> are not enumerated. The single-image generator processes
  exactly the entries whose name in lower case ends in \<^verbatim>\<open>.jpg\<close>, \<^verbatim>\<open>.jpeg\<close> or
  \<^verbatim>\<open>.png\<close>, in the order of the directory listing; so every entry whose name ends in
  one of the three is included.
\<close>

theorem c8_enumeration:
  "sorted (collect_image_paths names stems)
   \<and> mset (collect_image_paths names None) = filter_mset (\<lambda>n. \<exists>u. n = u @ ''.jpg'') (mset names)
   \<and> image_files_of names =
        filter (\<lambda>f. \<exists>u. lower f = u @ ''.jpg'' \<or> lower f = u @ ''.jpeg'' \<or> lower f = u @ ''.png'')
          names
   \<and> (f \<in> set names \<and> (\<exists>u. f = u @ ''.jpg'' \<or> f = u @ ''.jpeg'' \<or> f = u @ ''.png'')
        \<longrightarrow> f \<in> set (image_files_of names))
   \<and> collect_image_paths [''b.jpg'', ''c.png'', ''a.jpg'', ''d.jpeg'', ''e.JPG''] None
        = [''a.jpg'', ''b.jpg'']
   \<and> image_files_of [''b.jpg'', ''C.PNG'', ''n.txt'', ''a.jpeg''] = [''b.jpg'', ''C.PNG'', ''a.jpeg'']"
proof (intro conjI impI)
  show "sorted (collect_image_paths names stems)" by (rule sorted_collect_image_paths)
  show "mset (collect_image_paths names None)
          = filter_mset (\<lambda>n. \<exists>u. n = u @ ''.jpg'') (mset names)"
    by (simp add: collect_image_paths_def glob_jpg_def endswith_iff)
  have P: "(endswith (lower f) ''.jpg'' \<or> endswith (lower f) ''.jpeg'' \<or> endswith (lower f) ''.png'')
             = (\<exists>u. lower f = u @ ''.jpg'' \<or> lower f = u @ ''.jpeg'' \<or> lower f = u @ ''.png'')"
    for f
    unfolding endswith_iff by blast
  show "image_files_of names =
        filter (\<lambda>f. \<exists>u. lower f = u @ ''.jpg'' \<or> lower f = u @ ''.jpeg'' \<or> lower f = u @ ''.png'')
          names"
    unfolding image_files_of_def by (simp only: P)
  show "collect_image_paths [''b.jpg'', ''c.png'', ''a.jpg'', ''d.jpeg'', ''e.JPG''] None
        = [''a.jpg'', ''b.jpg'']"
    by code_simp
  show "image_files_of [''b.jpg'', ''C.PNG'', ''n.txt'', ''a.jpeg''] = [''b.jpg'', ''C.PNG'', ''a.jpeg'']"
    by code_simp
  assume a: "f \<in> set names \<and> (\<exists>u. f = u @ ''.jpg'' \<or> f = u @ ''.jpeg'' \<or> f = u @ ''.png'')"
  then have "endswith f ''.jpg'' \<or> endswith f ''.jpeg'' \<or> endswith f ''.png''"
    unfolding endswith_iff by blast
  then have "endswith (lower f) ''.jpg'' \<or> endswith (lower f) ''.jpeg'' \<or> endswith (lower f) ''.png''"
    using endswith_lower lower_exts by metis
  with a show "f \<in> set (image_files_of names)" by (simp add: image_files_of_def)
qed

theorem c8_enumeration_witness:
  "''c.png'' \<in> set (image_files_of [''b.jpg'', ''c.png'', ''a.jpg'', ''d.jpeg''])"
proof -
  have e: "''c.png'' = ''c'' @ ''.jpg'' \<or> ''c.png'' = ''c'' @ ''.jpeg'' \<or> ''c.png'' = ''c'' @ ''.png''"
    by simp
  have m: "''c.png'' \<in> set [''b.jpg'', ''c.png'', ''a.jpg'', ''d.jpeg'']" by simp
  from e have "\<exists>u. ''c.png'' = u @ ''.jpg'' \<or> ''c.png'' = u @ ''.jpeg'' \<or> ''c.png'' = u @ ''.png''"
    by (rule exI [of _ "''c''"])
  with m have h: "''c.png'' \<in> set [''b.jpg'', ''c.png'', ''a.jpg'', ''d.jpeg'']
             \<and> (\<exists>u. ''c.png'' = u @ ''.jpg'' \<or> ''c.png'' = u @ ''.jpeg'' \<or> ''c.png'' = u @ ''.png'')"
    by (rule conjI)
  show ?thesis
    by (rule c8_enumeration [THEN conjunct2, THEN conjunct2, THEN conjunct2, THEN conjunct1,
          THEN mp, OF h])
qed

text \<open>
  A directory that holds a \<^verbatim>\<open>.png\<close> and a \<^verbatim>\<open>.jpeg\<close> image gives the batch converter
  no image at all.
\<close>

theorem c8_png_jpeg_counterexample:
  "collect_image_paths [''a.png'', ''b.jpeg''] None = []"
  by (simp add: collect_image_paths_def glob_jpg_def endswith_def)

text \<open>The single-image generator keeps the order of the directory listing.\<close>

lemma image_files_of_unsorted:
  "image_files_of [''b.jpg'', ''a.jpg''] = [''b.jpg'', ''a.jpg'']"
  by code_simp

subsection \<open>The stems filter\<close>

text \<open>
  C10 (amended). In the batch converter an absent stems argument selects every
  enumerated image, that is every entry of the directory whose name ends in \<^verbatim>\<open>.jpg\<close>,
  each once and in name order, and an empty one selects none; the two differ exactly on
  the directories that hold such an entry. A missing split file reads as the empty list
  without an error, and the conversion of the empty selection writes the document with
  empty images and annotations and the one category, and ends without an exception; so
  does the command for a split whose file is missing.
\<close>

theorem c10_empty_versus_absent:
  "sorted (collect_image_paths names None)
   \<and> mset (collect_image_paths names None) = filter_mset (\<lambda>n. \<exists>u. n = u @ ''.jpg'') (mset names)
   \<and> collect_image_paths names (Some []) = []
   \<and> (collect_image_paths names None = collect_image_paths names (Some [])
        \<longleftrightarrow> \<not> (\<exists>n \<in> set names. \<exists>u. n = u @ ''.jpg''))
   \<and> read_split_file None = []
   \<and> convert_to_coco pf fi inp out_json (Some []) (files, out) =
       (None,
        (files(out_json \<mapsto>
           \<lparr>images = [], annotations = [],
            categories = [\<lparr>cat_id = 1, cat_name = ''apple'', cat_supercategory = ''fruit''\<rparr>]\<rparr>),
         out @ [Found_images_to_convert 0, Saved_COCO_JSON 0 0 out_json]))
   \<and> (split_file inp (split @ ''.txt'') = None \<longrightarrow>
        main_convert_to_coco pf fi inp dir [split] (files, out) =
          (None,
           (files(dir @ ''/applebbch81_instances_'' @ split @ ''.json'' \<mapsto>
              \<lparr>images = [], annotations = [],
               categories = [\<lparr>cat_id = 1, cat_name = ''apple'', cat_supercategory = ''fruit''\<rparr>]\<rparr>),
            out @ [Found_images_to_convert 0,
                   Saved_COCO_JSON 0 0 (dir @ ''/applebbch81_instances_'' @ split @ ''.json'')])))"
proof (intro conjI)
  show "sorted (collect_image_paths names None)" by (rule sorted_collect_image_paths)
  show m: "mset (collect_image_paths names None)
          = filter_mset (\<lambda>n. \<exists>u. n = u @ ''.jpg'') (mset names)"
    by (simp add: collect_image_paths_def glob_jpg_def endswith_iff)
  show e: "collect_image_paths names (Some []) = []"
    by (simp add: collect_image_paths_def)
  have "collect_image_paths names None = [] \<longleftrightarrow> mset (collect_image_paths names None) = {#}"
    by simp
  also have "\<dots> \<longleftrightarrow> \<not> (\<exists>n \<in> set names. \<exists>u. n = u @ ''.jpg'')"
    unfolding m by auto
  finally show "collect_image_paths names None = collect_image_paths names (Some [])
        \<longleftrightarrow> \<not> (\<exists>n \<in> set names. \<exists>u. n = u @ ''.jpg'')"
    by (simp only: e)
  show "read_split_file None = []" by (simp add: read_split_file_def)
  have c: "convert_to_coco pf fi inp out_json (Some []) (files, out) =
       (None,
        (files(out_json \<mapsto>
           \<lparr>images = [], annotations = [],
            categories = [\<lparr>cat_id = 1, cat_name = ''apple'', cat_supercategory = ''fruit''\<rparr>]\<rparr>),
         out @ [Found_images_to_convert 0, Saved_COCO_JSON 0 0 out_json]))"
    for out_json
    by (simp add: collect_image_paths_def convert_to_coco_def enumerate1_def build_coco_dict_def
        Let_def)
  show "convert_to_coco pf fi inp out_json (Some []) (files, out) =
       (None,
        (files(out_json \<mapsto>
           \<lparr>images = [], annotations = [],
            categories = [\<lparr>cat_id = 1, cat_name = ''apple'', cat_supercategory = ''fruit''\<rparr>]\<rparr>),
         out @ [Found_images_to_convert 0, Saved_COCO_JSON 0 0 out_json]))"
    by (rule c)
  show "split_file inp (split @ ''.txt'') = None \<longrightarrow>
        main_convert_to_coco pf fi inp dir [split] (files, out) =
          (None,
           (files(dir @ ''/applebbch81_instances_'' @ split @ ''.json'' \<mapsto>
              \<lparr>images = [], annotations = [],
               categories = [\<lparr>cat_id = 1, cat_name = ''apple'', cat_supercategory = ''fruit''\<rparr>]\<rparr>),
            out @ [Found_images_to_convert 0,
                   Saved_COCO_JSON 0 0 (dir @ ''/applebbch81_instances_'' @ split @ ''.json'')]))"
    by (simp add: main_convert_to_coco_def read_split_file_def c path_join_def)
qed

text \<open>
  A directory of three entries, two of them \<^verbatim>\<open>.jpg\<close>: absent stems select the two,
  empty stems none; and the command for the split \<^verbatim>\<open>val\<close>, whose file is missing.
\<close>

theorem c10_empty_versus_absent_witness:
  "collect_image_paths [''b.jpg'', ''c.png'', ''a.jpg''] None
     \<noteq> collect_image_paths [''b.jpg'', ''c.png'', ''a.jpg''] (Some [])
   \<and> main_convert_to_coco decimal_float decimal_is_inf
       \<lparr>listdir = [''b.jpg'', ''c.png'', ''a.jpg''], decode = (\<lambda>n. Some (100, 200)),
        getsize = (\<lambda>n. Some 1), label_file = (\<lambda>n. None), split_file = (\<lambda>n. None)\<rparr>
       ''annotations'' [''val''] (Map.empty, []) =
     (None,
      ([''annotations'' @ ''/applebbch81_instances_'' @ ''val'' @ ''.json'' \<mapsto>
          \<lparr>images = [], annotations = [],
           categories = [\<lparr>cat_id = 1, cat_name = ''apple'', cat_supercategory = ''fruit''\<rparr>]\<rparr>],
       [] @ [Found_images_to_convert 0,
             Saved_COCO_JSON 0 0 (''annotations'' @ ''/applebbch81_instances_'' @ ''val'' @ ''.json'')]))"
proof (rule conjI)
  let ?names = "[''b.jpg'', ''c.png'', ''a.jpg'']"
  have "''b.jpg'' \<in> set ?names \<and> ''b.jpg'' = ''b'' @ ''.jpg''" by simp
  then have ex: "\<exists>n \<in> set ?names. \<exists>u. n = u @ ''.jpg''" by blast
  have iff: "collect_image_paths ?names None = collect_image_paths ?names (Some [])
        \<longleftrightarrow> \<not> (\<exists>n \<in> set ?names. \<exists>u. n = u @ ''.jpg'')"
    by (rule c10_empty_versus_absent [THEN conjunct2, THEN conjunct2, THEN conjunct2,
          THEN conjunct1])
  show "collect_image_paths ?names None \<noteq> collect_image_paths ?names (Some [])"
    using iff ex by blast
  let ?inp = "\<lparr>listdir = ?names, decode = (\<lambda>n. Some (100, 200)),
        getsize = (\<lambda>n. Some 1), label_file = (\<lambda>n. None), split_file = (\<lambda>n. None)\<rparr>"
  have h: "split_file ?inp (''val'' @ ''.txt'') = None" by simp
  show "main_convert_to_coco decimal_float decimal_is_inf ?inp ''annotations'' [''val'']
          (Map.empty, []) =
     (None,
      ([''annotations'' @ ''/applebbch81_instances_'' @ ''val'' @ ''.json'' \<mapsto>
          \<lparr>images = [], annotations = [],
           categories = [\<lparr>cat_id = 1, cat_name = ''apple'', cat_supercategory = ''fruit''\<rparr>]\<rparr>],
       [] @ [Found_images_to_convert 0,
             Saved_COCO_JSON 0 0 (''annotations'' @ ''/applebbch81_instances_'' @ ''val'' @ ''.json'')]))"
    by (rule c10_empty_versus_absent [THEN conjunct2, THEN conjunct2, THEN conjunct2,
          THEN conjunct2, THEN conjunct2, THEN conjunct2, THEN mp, OF h])
qed

text \<open>
  On a directory whose only image is a \<^verbatim>\<open>.png\<close> file, absent stems select no image,
  as empty stems do.
\<close>

theorem c10_png_directory_counterexample:
  "collect_image_paths [''a.png''] None = []
   \<and> collect_image_paths [''a.png''] None = collect_image_paths [''a.png''] (Some [])"
  by (simp add: collect_image_paths_def glob_jpg_def endswith_def)

subsection \<open>The label readers\<close>

text \<open>
  The reader of the batch converter skips a line with a token that is no number, and a
  line that has not five tokens, and goes on with the next line. A class token that
  reads as an infinity ends it with \<^verbatim>\<open>OverflowError\<close>; nothing else does.
\<close>

lemma label_rows_cc_skip:
  assumes "py_split (strip line) = [p0, p1, p2, p3, p4]" "pf p0 = None" "\<not> fi p0"
  shows "label_rows_cc pf fi (line # rest) = label_rows_cc pf fi rest"
  using assms by (simp add: Let_def int_float_def)

lemma label_rows_cc_count:
  assumes "length (py_split (strip line)) \<noteq> 5"
  shows "label_rows_cc pf fi (line # rest) = label_rows_cc pf fi rest"
  using assms by (auto simp: Let_def split: list.splits)

lemma label_rows_cc_overflow:
  assumes "py_split (strip line) = [p0, p1, p2, p3, p4]" "fi p0"
  shows "label_rows_cc pf fi (line # rest) = Inl OverflowError"
proof -
  have "strip line \<noteq> []" using assms(1) by (auto simp: py_split_def)
  then show ?thesis using assms by (simp add: Let_def int_float_def)
qed

lemma int_float_raises: "int_float pf fi t = Inl e \<Longrightarrow> e = ValueError \<or> e = OverflowError"
  by (auto simp: int_float_def split: if_splits option.splits)

lemma label_rows_cc_raises: "label_rows_cc pf fi lines = Inl e \<Longrightarrow> e = OverflowError"
proof (induction lines)
  case Nil
  then show ?case by simp
next
  case (Cons raw rest)
  show ?case
  proof (cases "strip raw = []")
    case True
    with Cons show ?thesis by simp
  next
    case False
    show ?thesis
    proof (cases "\<exists>p0 p1 p2 p3 p4. py_split (strip raw) = [p0, p1, p2, p3, p4]")
      case no: False
      then have "label_rows_cc pf fi (raw # rest) = label_rows_cc pf fi rest"
        using False by (auto simp: Let_def split: list.splits)
      with Cons show ?thesis by simp
    next
      case True
      then obtain p0 p1 p2 p3 p4 where ps: "py_split (strip raw) = [p0, p1, p2, p3, p4]" by blast
      show ?thesis
      proof (cases "int_float pf fi p0")
        case (Inl e')
        show ?thesis
        proof (cases "e' = ValueError")
          case True
          then have "label_rows_cc pf fi (raw # rest) = label_rows_cc pf fi rest"
            using False ps Inl by (simp add: Let_def)
          with Cons show ?thesis by simp
        next
          case ne: False
          then have "label_rows_cc pf fi (raw # rest) = Inl e'"
            using False ps Inl by (simp add: Let_def)
          with Cons.prems have "e = e'" by simp
          then show ?thesis using int_float_raises [OF Inl] ne by simp
        qed
      next
        case (Inr cls)
        show ?thesis
        proof (cases "\<exists>xc yc w h. pf p1 = Some xc \<and> pf p2 = Some yc \<and> pf p3 = Some w \<and> pf p4 = Some h")
          case True
          then obtain xc yc w h where
            v: "pf p1 = Some xc" "pf p2 = Some yc" "pf p3 = Some w" "pf p4 = Some h" by blast
          from Cons.prems have "label_rows_cc pf fi rest = Inl e"
            using False ps Inr v by (simp add: Let_def split: sum.splits)
          then show ?thesis by (rule Cons.IH)
        next
          case nv: False
          then have "label_rows_cc pf fi (raw # rest) = label_rows_cc pf fi rest"
            using False ps Inr by (auto simp: Let_def split: option.splits)
          with Cons show ?thesis by simp
        qed
      qed
    qed
  qed
qed

lemma read_yolo_labels_cc_raises:
  "read_yolo_labels_cc pf fi lf = Inl e \<Longrightarrow> e = OverflowError"
  by (cases lf) (auto simp: read_yolo_labels_cc_def dest: label_rows_cc_raises)

text \<open>
  C6 (the single-image generator departs from it). In \<^verbatim>\<open>read_yolo_annotations\<close> the
  handler encloses the loop over the lines: a five-token line whose class token
  \<^verbatim>\<open>int\<close> rejects ends the reading of the file, the lines after it are not parsed
  whatever they hold, and a line is printed. Here the rejected line is the first one,
  so that nothing is read.
\<close>

theorem c6_reader_stops_at_bad_token:
  assumes "py_split (strip line) = [p0, p1, p2, p3, p4]" and "py_int p0 = None"
  shows "read_yolo_annotations py_int py_float (line # rest) = ([], [Error_reading_label_file])"
proof -
  have "strip line \<noteq> []" using assms(1) by (auto simp: py_split_def)
  then show ?thesis using assms by (simp add: read_yolo_annotations_def Let_def)
qed

theorem c6_reader_stops_at_bad_token_witness:
  "read_yolo_annotations decimal_int decimal_float [''x 0.5 0.5 0.2 0.4'', ''0 0.5 0.5 0.2 0.4'']
     = ([], [Error_reading_label_file])"
proof -
  have 1: "py_split (strip ''x 0.5 0.5 0.2 0.4'') = [''x'', ''0.5'', ''0.5'', ''0.2'', ''0.4'']"
    by code_simp
  have 2: "decimal_int ''x'' = None" by code_simp
  show ?thesis
    by (rule c6_reader_stops_at_bad_token [where py_int = decimal_int, OF 1 2])
qed

text \<open>
  On the same lines the reader of the batch converter keeps the well-formed line, and a
  four-token line is dropped by both readers without a printed line.
\<close>

lemma label_rows_cc_example:
  "label_rows_cc decimal_float decimal_is_inf
     [''x 0.5 0.5 0.2 0.4'', ''0 0.5 0.5 0.2'', ''0 0.5 0.5 0.2 0.4'']
     = Inr [(0, 1/2, 1/2, 1/5, 2/5)]"
  by code_simp

lemma read_yolo_annotations_four_tokens:
  "read_yolo_annotations decimal_int decimal_float [''0 0.5 0.5 0.2'', ''0 0.5 0.5 0.2 0.4'']
     = ([\<lparr>class_id = 0, center_x = 1/2, center_y = 1/2, width = 1/5, height = 2/5\<rparr>], [])"
  by code_simp

text \<open>
  A class token that reads as an infinity is not skipped by the reader of the batch
  converter: the exception leaves it, and the lines after it are not read.
\<close>

lemma label_rows_cc_overflow_example:
  "label_rows_cc decimal_float decimal_is_inf [''inf 0.5 0.5 0.2 0.4'', ''0 0.5 0.5 0.2 0.4'']
     = Inl OverflowError"
  by code_simp

subsection \<open>The conversion loops\<close>

lemma annotate_rows_props:
  "annotate_rows i W H rows (anns, k) = (anns', k') \<Longrightarrow>
   \<exists>new. anns' = anns @ new \<and> length new = length rows
          \<and> (\<forall>a \<in> set new. ann_image_id a = i \<and> ann_category_id a = 1)"
proof (induction rows arbitrary: anns k)
  case Nil
  then show ?case by simp
next
  case (Cons r rows)
  obtain cls xc yc w h where r: "r = (cls, xc, yc, w, h)" by (cases r) auto
  obtain x y ww hh where b: "yolo_to_coco_bbox_cc xc yc w h W H = (x, y, ww, hh)"
    by (cases "yolo_to_coco_bbox_cc xc yc w h W H") auto
  define a where "a = \<lparr>ann_id = k, ann_image_id = i, ann_category_id = 1, ann_bbox = [x, y, ww, hh],
                      ann_area = ww * hh, ann_iscrowd = 0, ann_segmentation = Some []\<rparr>"
  from Cons.prems have "annotate_rows i W H rows (anns @ [a], k + 1) = (anns', k')"
    by (simp add: r b a_def)
  from Cons.IH [OF this] obtain new where
    n: "anns' = (anns @ [a]) @ new" "length new = length rows"
       "\<forall>a \<in> set new. ann_image_id a = i \<and> ann_category_id a = 1"
    by blast
  have "anns' = anns @ (a # new)" using n(1) by simp
  moreover have "length (a # new) = length (r # rows)" using n(2) by simp
  moreover have "\<forall>a \<in> set (a # new). ann_image_id a = i \<and> ann_category_id a = 1"
    using n(3) by (simp add: a_def)
  ultimately show ?case by blast
qed

lemma annotate_rows_Nil: "annotate_rows i W H [] st = st"
  by simp

lemma convert_images_props:
  "convert_images pf fi inp ps (imgs, anns, k) = Inr (imgs', anns', k') \<Longrightarrow>
   map (\<lambda>im. (img_id im, img_file_name im)) imgs'
     = map (\<lambda>im. (img_id im, img_file_name im)) imgs @ ps
   \<and> (\<exists>new. anns' = anns @ new
        \<and> (\<forall>a \<in> set new. ann_category_id a = 1
              \<and> (\<exists>q rows. (ann_image_id a, q) \<in> set ps
                    \<and> read_yolo_labels_cc pf fi (label_file inp (stem q @ ''.txt'')) = Inr rows
                    \<and> rows \<noteq> [])))"
proof (induction ps arbitrary: imgs anns k)
  case Nil
  then show ?case by simp
next
  case (Cons ip ps)
  obtain i p where ip: "ip = (i, p)" by (cases ip) auto
  from Cons.prems obtain W H where d: "image_size inp p = Inr (W, H)"
    by (cases "image_size inp p") (auto simp: ip)
  define im where "im = \<lparr>img_id = i, img_file_name = p, img_width = W, img_height = H,
                         img_license = 1, img_date_captured = ''2024-04-12''\<rparr>"
  from Cons.prems obtain rows where
    rd: "read_yolo_labels_cc pf fi (label_file inp (stem p @ ''.txt'')) = Inr rows"
    by (cases "read_yolo_labels_cc pf fi (label_file inp (stem p @ ''.txt''))")
       (auto simp: ip d Let_def)
  obtain anns1 k1 where ar: "annotate_rows i W H rows (anns, k) = (anns1, k1)"
    by (cases "annotate_rows i W H rows (anns, k)") auto
  from Cons.prems have rec: "convert_images pf fi inp ps (imgs @ [im], anns1, k1) = Inr (imgs', anns', k')"
    using ar by (simp add: ip d rd im_def Let_def)
  from annotate_rows_props [OF ar] obtain new1 where
    n1: "anns1 = anns @ new1" "length new1 = length rows"
        "\<forall>a \<in> set new1. ann_image_id a = i \<and> ann_category_id a = 1"
    by blast
  from Cons.IH [OF rec] obtain new2 where
    m: "map (\<lambda>im. (img_id im, img_file_name im)) imgs'
          = map (\<lambda>im. (img_id im, img_file_name im)) (imgs @ [im]) @ ps"
    and n2: "anns' = anns1 @ new2"
        "\<forall>a \<in> set new2. ann_category_id a = 1
              \<and> (\<exists>q rows. (ann_image_id a, q) \<in> set ps
                    \<and> read_yolo_labels_cc pf fi (label_file inp (stem q @ ''.txt'')) = Inr rows
                    \<and> rows \<noteq> [])"
    by blast
  have r1: "rows \<noteq> []" if "a \<in> set new1" for a
    using that n1(2) by auto
  have A: "map (\<lambda>im. (img_id im, img_file_name im)) imgs'
          = map (\<lambda>im. (img_id im, img_file_name im)) imgs @ ip # ps"
    using m by (simp add: im_def ip)
  have B: "anns' = anns @ (new1 @ new2)" using n1(1) n2(1) by simp
  have C: "\<forall>a \<in> set (new1 @ new2). ann_category_id a = 1
              \<and> (\<exists>q rows. (ann_image_id a, q) \<in> set (ip # ps)
                    \<and> read_yolo_labels_cc pf fi (label_file inp (stem q @ ''.txt'')) = Inr rows
                    \<and> rows \<noteq> [])"
  proof
    fix a assume "a \<in> set (new1 @ new2)"
    then consider "a \<in> set new1" | "a \<in> set new2" by auto
    then show "ann_category_id a = 1
              \<and> (\<exists>q rows. (ann_image_id a, q) \<in> set (ip # ps)
                    \<and> read_yolo_labels_cc pf fi (label_file inp (stem q @ ''.txt'')) = Inr rows
                    \<and> rows \<noteq> [])"
    proof cases
      case 1
      then have "ann_image_id a = i" "ann_category_id a = 1" "rows \<noteq> []"
        using n1(3) r1 by auto
      then show ?thesis using rd ip by auto
    next
      case 2
      with n2(2) obtain q rows' where
        "ann_category_id a = 1" "(ann_image_id a, q) \<in> set ps"
        "read_yolo_labels_cc pf fi (label_file inp (stem q @ ''.txt'')) = Inr rows'" "rows' \<noteq> []"
        by blast
      then show ?thesis by auto
    qed
  qed
  show ?case using A B C by blast
qed

lemma convert_images_ok:
  "\<forall>ip \<in> set ps. decode inp (snd ip) \<noteq> None
       \<and> (\<exists>rows. read_yolo_labels_cc pf fi (label_file inp (stem (snd ip) @ ''.txt'')) = Inr rows)
   \<Longrightarrow> \<exists>r. convert_images pf fi inp ps st = Inr r"
proof (induction ps arbitrary: st)
  case Nil
  show ?case by (rule exI [of _ st]) simp
next
  case (Cons ip ps)
  obtain i p where ip: "ip = (i, p)" by (cases ip) auto
  obtain imgs anns k where st: "st = (imgs, anns, k)" by (metis prod_cases3)
  from Cons.prems obtain W H where d: "decode inp p = Some (W, H)" by (auto simp: ip)
  from Cons.prems obtain rows where
    rd: "read_yolo_labels_cc pf fi (label_file inp (stem p @ ''.txt'')) = Inr rows"
    by (auto simp: ip)
  have rest: "\<forall>ip \<in> set ps. decode inp (snd ip) \<noteq> None
       \<and> (\<exists>rows. read_yolo_labels_cc pf fi (label_file inp (stem (snd ip) @ ''.txt'')) = Inr rows)"
    using Cons.prems by simp
  show ?case
    using Cons.IH [OF rest]
    by (simp add: ip st image_size_def d rd Let_def split: prod.splits)
qed

lemma convert_images_fail:
  "ip \<in> set ps \<Longrightarrow> decode inp (snd ip) = None \<Longrightarrow>
   \<exists>e. convert_images pf fi inp ps st = Inl e
       \<and> (e = UnidentifiedImageError \<or> e = OverflowError)
       \<and> ((\<forall>jq \<in> set ps. \<exists>rows.
              read_yolo_labels_cc pf fi (label_file inp (stem (snd jq) @ ''.txt'')) = Inr rows)
            \<longrightarrow> e = UnidentifiedImageError)"
proof (induction ps arbitrary: st)
  case Nil
  then show ?case by simp
next
  case (Cons jq ps)
  obtain j q where jq: "jq = (j, q)" by (cases jq) auto
  obtain imgs anns k where st: "st = (imgs, anns, k)" by (metis prod_cases3)
  show ?case
  proof (cases "decode inp q")
    case None
    then have "convert_images pf fi inp (jq # ps) st = Inl UnidentifiedImageError"
      by (simp add: jq st image_size_def)
    then show ?thesis by simp
  next
    case (Some wh)
    obtain W H where wh: "wh = (W, H)" by (cases wh) auto
    from Some have "ip \<noteq> jq" using Cons.prems(2) jq by auto
    then have mem: "ip \<in> set ps" using Cons.prems(1) by simp
    show ?thesis
    proof (cases "read_yolo_labels_cc pf fi (label_file inp (stem q @ ''.txt''))")
      case (Inl e)
      then have e: "e = OverflowError" by (rule read_yolo_labels_cc_raises)
      have "convert_images pf fi inp (jq # ps) st = Inl OverflowError"
        using Some Inl e by (simp add: jq st wh image_size_def Let_def)
      moreover have "\<not> (\<forall>jq \<in> set (jq # ps). \<exists>rows.
              read_yolo_labels_cc pf fi (label_file inp (stem (snd jq) @ ''.txt'')) = Inr rows)"
        using Inl by (auto simp: jq)
      ultimately show ?thesis by simp
    next
      case (Inr rows)
      obtain anns1 k1 where ar: "annotate_rows j W H rows (anns, k) = (anns1, k1)"
        by (cases "annotate_rows j W H rows (anns, k)") auto
      define st' where "st' = (imgs @ [\<lparr>img_id = j, img_file_name = q, img_width = W,
                               img_height = H, img_license = 1,
                               img_date_captured = ''2024-04-12''\<rparr>], anns1, k1)"
      have step: "convert_images pf fi inp (jq # ps) st = convert_images pf fi inp ps st'"
        using Some Inr ar by (simp add: jq st wh image_size_def Let_def st'_def)
      from Cons.IH [OF mem Cons.prems(2), of st'] obtain e where
        e: "convert_images pf fi inp ps st' = Inl e"
           "e = UnidentifiedImageError \<or> e = OverflowError"
           "(\<forall>jq \<in> set ps. \<exists>rows.
              read_yolo_labels_cc pf fi (label_file inp (stem (snd jq) @ ''.txt'')) = Inr rows)
            \<longrightarrow> e = UnidentifiedImageError"
        by blast
      have "convert_images pf fi inp (jq # ps) st = Inl e" using step e(1) by simp
      moreover have "(\<forall>jq \<in> set (jq # ps). \<exists>rows.
              read_yolo_labels_cc pf fi (label_file inp (stem (snd jq) @ ''.txt'')) = Inr rows)
            \<longrightarrow> e = UnidentifiedImageError"
        using e(3) by simp
      ultimately show ?thesis using e(2) by blast
    qed
  qed
qed

lemma enumerate1_snd: "map snd (enumerate1 xs) = xs"
  unfolding enumerate1_def by (rule map_snd_zip) (simp del: upt_Suc)

lemma enumerate1_fst: "map fst (enumerate1 xs) = map int [1 ..< Suc (length xs)]"
  unfolding enumerate1_def by (rule map_fst_zip) (simp del: upt_Suc)

lemma enumerate1_distinct: "distinct (map fst (enumerate1 xs))"
  by (simp add: enumerate1_fst distinct_map inj_on_def)

lemma enumerate1_mem: "p \<in> set xs \<Longrightarrow> \<exists>i. (i, p) \<in> set (enumerate1 xs)"
proof -
  assume "p \<in> set xs"
  then have "p \<in> set (map snd (enumerate1 xs))" by (simp add: enumerate1_snd)
  then show ?thesis by auto
qed

lemma enumerate1_unique:
  "(i, p) \<in> set (enumerate1 xs) \<Longrightarrow> (i, q) \<in> set (enumerate1 xs) \<Longrightarrow> p = q"
  using enumerate1_distinct [of xs] by (meson eq_key_imp_eq_value)

subsection \<open>Unreadable images\<close>

text \<open>
  C5 (the batch converter departs from it). \<^verbatim>\<open>_image_size\<close> has no handler and no
  fallback dimension: when one selected image cannot be decoded, \<^verbatim>\<open>convert_to_coco\<close>
  ends with an exception after its first printed line, and writes no document,
  whatever the other images are. The exception is that of the image, unless the label
  file of an image before it has raised \<^verbatim>\<open>OverflowError\<close> first.
\<close>

theorem c5_batch_aborts_on_unreadable_image:
  assumes "p \<in> set (collect_image_paths (listdir inp) stems)" and "decode inp p = None"
  shows "\<exists>e. convert_to_coco pf fi inp out_json stems (files, out) =
           (Some e,
            (files, out @ [Found_images_to_convert (length (collect_image_paths (listdir inp) stems))]))
         \<and> (e = UnidentifiedImageError \<or> e = OverflowError)
         \<and> ((\<forall>q \<in> set (collect_image_paths (listdir inp) stems). \<exists>rows.
                read_yolo_labels_cc pf fi (label_file inp (stem q @ ''.txt'')) = Inr rows)
              \<longrightarrow> e = UnidentifiedImageError)"
proof -
  define ps where "ps = collect_image_paths (listdir inp) stems"
  from assms(1) have "\<exists>i. (i, p) \<in> set (enumerate1 ps)"
    unfolding ps_def by (rule enumerate1_mem)
  then obtain i where mem: "(i, p) \<in> set (enumerate1 ps)" ..
  have d: "decode inp (snd (i, p)) = None" using assms(2) by simp
  from convert_images_fail [OF mem d, of pf fi "([], [], 1)"] obtain e where
    ci: "convert_images pf fi inp (enumerate1 ps) ([], [], 1) = Inl e"
    and e: "e = UnidentifiedImageError \<or> e = OverflowError"
    and u: "(\<forall>jq \<in> set (enumerate1 ps). \<exists>rows.
              read_yolo_labels_cc pf fi (label_file inp (stem (snd jq) @ ''.txt'')) = Inr rows)
            \<longrightarrow> e = UnidentifiedImageError"
    by blast
  have run: "convert_to_coco pf fi inp out_json stems (files, out) =
          (Some e, (files, out @ [Found_images_to_convert (length ps)]))"
    unfolding convert_to_coco_def ps_def [symmetric] by (simp add: ci Let_def)
  have u': "e = UnidentifiedImageError"
    if a: "\<forall>q \<in> set ps. \<exists>rows.
                read_yolo_labels_cc pf fi (label_file inp (stem q @ ''.txt'')) = Inr rows"
  proof -
    have "\<exists>rows. read_yolo_labels_cc pf fi (label_file inp (stem (snd jq) @ ''.txt'')) = Inr rows"
      if "jq \<in> set (enumerate1 ps)" for jq
    proof -
      from that have "snd jq \<in> set (map snd (enumerate1 ps))" by simp
      then have "snd jq \<in> set ps" by (simp add: enumerate1_snd)
      with a show ?thesis by blast
    qed
    with u show ?thesis by blast
  qed
  have "convert_to_coco pf fi inp out_json stems (files, out) =
          (Some e, (files, out @ [Found_images_to_convert (length ps)]))
         \<and> (e = UnidentifiedImageError \<or> e = OverflowError)
         \<and> ((\<forall>q \<in> set ps. \<exists>rows.
                read_yolo_labels_cc pf fi (label_file inp (stem q @ ''.txt'')) = Inr rows)
              \<longrightarrow> e = UnidentifiedImageError)"
    using run e u' by blast
  then show ?thesis unfolding ps_def by (rule exI [of _ e])
qed

theorem c5_batch_aborts_on_unreadable_image_witness:
  "convert_to_coco decimal_float decimal_is_inf
     \<lparr>listdir = [''a.jpg'', ''b.jpg''],
      decode = (\<lambda>n. if n = ''a.jpg'' then None else Some (100, 200)),
      getsize = (\<lambda>n. Some 1), label_file = (\<lambda>n. None), split_file = (\<lambda>n. None)\<rparr>
     ''out.json'' None (Map.empty, []) =
   (Some UnidentifiedImageError, (Map.empty, [Found_images_to_convert 2]))"
proof -
  define inp where "inp = \<lparr>listdir = [''a.jpg'', ''b.jpg''],
      decode = (\<lambda>n. if n = ''a.jpg'' then None else Some (100, 200)),
      getsize = (\<lambda>n. Some (1 :: int)), label_file = (\<lambda>n. None :: string list option),
      split_file = (\<lambda>n. None :: string list option)\<rparr>"
  have 1: "''a.jpg'' \<in> set (collect_image_paths (listdir inp) None)"
    by (simp add: inp_def collect_image_paths_def glob_jpg_def endswith_def)
  have 2: "decode inp ''a.jpg'' = None" by (simp add: inp_def)
  have 3: "length (collect_image_paths (listdir inp) None) = 2"
    by (simp add: inp_def collect_image_paths_def glob_jpg_def endswith_def)
  have 4: "\<forall>q \<in> set (collect_image_paths (listdir inp) None). \<exists>rows.
                read_yolo_labels_cc decimal_float decimal_is_inf
                  (label_file inp (stem q @ ''.txt'')) = Inr rows"
    by (simp add: inp_def read_yolo_labels_cc_def)
  from c5_batch_aborts_on_unreadable_image [OF 1 2, of decimal_float decimal_is_inf
      "''out.json''" Map.empty "[]"]
  obtain e where
    r: "convert_to_coco decimal_float decimal_is_inf inp ''out.json'' None (Map.empty, []) =
           (Some e, (Map.empty,
              [] @ [Found_images_to_convert (length (collect_image_paths (listdir inp) None))]))"
    and u: "(\<forall>q \<in> set (collect_image_paths (listdir inp) None). \<exists>rows.
                read_yolo_labels_cc decimal_float decimal_is_inf
                  (label_file inp (stem q @ ''.txt'')) = Inr rows)
              \<longrightarrow> e = UnidentifiedImageError"
    by blast
  from u 4 have "e = UnidentifiedImageError" by (rule mp)
  with r have "convert_to_coco decimal_float decimal_is_inf inp ''out.json'' None (Map.empty, []) =
           (Some UnidentifiedImageError, (Map.empty, [Found_images_to_convert 2]))"
    by (simp only: 3 append_Nil)
  then show ?thesis unfolding inp_def .
qed

text \<open>
  The single-image generator does substitute a fixed dimension, 640 by 640, and goes on.
\<close>

lemma get_image_info_fallback:
  "decode inp f = None \<Longrightarrow> getsize inp f = Some file_size \<Longrightarrow>
   get_image_info inp f =
     (Inr \<lparr>info_width = 640, info_height = 640, info_size = file_size, info_format = ''JPEG''\<rparr>,
      [Error_reading_image f])"
  by (simp add: get_image_info_def)

text \<open>
  A class token that reads as an infinity in the label file of one image ends the run of
  the batch converter in the same way.
\<close>

lemma convert_to_coco_overflow_example:
  "fst (convert_to_coco decimal_float decimal_is_inf
     \<lparr>listdir = [''a.jpg'', ''b.jpg''], decode = (\<lambda>n. Some (100, 200)), getsize = (\<lambda>n. Some 1),
      label_file = (\<lambda>n. if n = ''a.txt'' then Some [''inf 0.5 0.5 0.2 0.4''] else None),
      split_file = (\<lambda>n. None)\<rparr>
     ''out.json'' None (Map.empty, [])) = Some OverflowError"
  by code_simp

subsection \<open>The loop of the single-image generator\<close>

lemma convert_annotations_props:
  "convert_annotations ri tm i c info ys (anns, w) = (r, anns', w') \<Longrightarrow>
   r = None \<and> (\<exists>new. anns' = anns @ new \<and> length new = length ys
                  \<and> (\<forall>a \<in> set new. ae_image_id a = i \<and> ae_category_id a = c))"
proof (induction ys arbitrary: anns w)
  case Nil
  then show ?case by simp
next
  case (Cons y ys)
  define bbox where "bbox = [center_x y * of_int (info_width info), center_y y * of_int (info_height info),
                             width y * of_int (info_width info), height y * of_int (info_height info)]"
  have b: "yolo_to_coco_bbox [center_x y, center_y y, width y, height y] (info_width info) (info_height info)
             = Inr bbox"
    by (simp add: yolo_to_coco_bbox_four bbox_def)
  obtain k w1 where g: "generate_unique_id ri tm w = (k, w1)"
    by (cases "generate_unique_id ri tm w") auto
  define a where "a = \<lparr>ae_id = k, ae_image_id = i, ae_category_id = c, ae_segmentation = [],
                       ae_area = bbox ! 2 * bbox ! 3, ae_bbox = bbox\<rparr>"
  have ct: "create_annotation_template ri tm i c bbox (bbox ! 2 * bbox ! 3) w = (a, w1)"
    by (simp add: create_annotation_template_def g a_def)
  from Cons.prems have "convert_annotations ri tm i c info ys (anns @ [a], w1) = (r, anns', w')"
    by (simp add: b ct Let_def)
  from Cons.IH [OF this] obtain new where
    n: "r = None" "anns' = (anns @ [a]) @ new" "length new = length ys"
       "\<forall>a \<in> set new. ae_image_id a = i \<and> ae_category_id a = c"
    by blast
  have "anns' = anns @ (a # new)" using n(2) by simp
  moreover have "length (a # new) = length (y # ys)" using n(3) by simp
  moreover have "\<forall>a \<in> set (a # new). ae_image_id a = i \<and> ae_category_id a = c"
    using n(4) by (simp add: a_def)
  ultimately show ?case using n(1) by blast
qed

lemma generate_individual_json_props:
  assumes run: "generate_individual_json pint pf ri tm inp f odir (files, out, w) = (r, (files', out', w'))"
    and sz: "getsize inp f \<noteq> None"
  shows "r = None \<and>
     (\<exists>doc img c.
        files' = files(path_join odir (splitext_root f @ ''.json'') \<mapsto> doc)
        \<and> t_images doc = [img] \<and> ie_file_name img = f
        \<and> map cat_id (t_categories doc) = [c]
        \<and> (\<forall>a \<in> set (t_annotations doc). ae_image_id a = ie_id img \<and> ae_category_id a = c)
        \<and> (decode inp f = None \<longrightarrow> ie_width img = 640 \<and> ie_height img = 640
              \<and> Error_reading_image f \<in> set out')
        \<and> (label_file inp (splitext_root f @ ''.txt'') = None \<longrightarrow>
              t_annotations doc = [] \<and> Warning_label_file_not_found f \<in> set out'))"
proof -
  from sz obtain file_size where fs: "getsize inp f = Some file_size" by auto
  obtain info printed where gi: "get_image_info inp f = (Inr info, printed)"
    by (cases "decode inp f") (auto simp: get_image_info_def fs)
  have fb: "decode inp f = None \<longrightarrow> info_width info = 640 \<and> info_height info = 640
              \<and> printed = [Error_reading_image f]"
    using gi by (auto simp: get_image_info_def fs)
  obtain i w1 where g1: "generate_unique_id ri tm w = (i, w1)"
    by (cases "generate_unique_id ri tm w") auto
  obtain c w2 where g2: "generate_unique_id ri tm w1 = (c, w2)"
    by (cases "generate_unique_id ri tm w1") auto
  define img where "img = \<lparr>ie_id = i, ie_width = info_width info, ie_height = info_height info,
                       ie_file_name = f, ie_size = info_size info,
                       ie_format = info_format info, ie_url = [], ie_hash = [],
                       ie_status = ''success''\<rparr>"
  define cat where "cat = \<lparr>cat_id = c, cat_name = ''AppleBBCH81'', cat_supercategory = ''apple''\<rparr>"
  show ?thesis
  proof (cases "label_file inp (splitext_root f @ ''.txt'')")
    case None
    from run have res: "r = None"
      "files' = files(path_join odir (splitext_root f @ ''.json'') \<mapsto>
                  \<lparr>t_images = [img], t_annotations = [], t_categories = [cat]\<rparr>)"
      "out' = out @ printed @ [Warning_label_file_not_found f,
                Generated (path_join odir (splitext_root f @ ''.json'')) 0]"
      by (simp_all add: generate_individual_json_def gi g1 g2 None Let_def img_def cat_def)
    let ?doc = "\<lparr>t_images = [img], t_annotations = [], t_categories = [cat]\<rparr>"
    have "files' = files(path_join odir (splitext_root f @ ''.json'') \<mapsto> ?doc)
        \<and> t_images ?doc = [img] \<and> ie_file_name img = f
        \<and> map cat_id (t_categories ?doc) = [c]
        \<and> (\<forall>a \<in> set (t_annotations ?doc). ae_image_id a = ie_id img \<and> ae_category_id a = c)
        \<and> (decode inp f = None \<longrightarrow> ie_width img = 640 \<and> ie_height img = 640
              \<and> Error_reading_image f \<in> set out')
        \<and> (label_file inp (splitext_root f @ ''.txt'') = None \<longrightarrow>
              t_annotations ?doc = [] \<and> Warning_label_file_not_found f \<in> set out')"
      using res fb by (simp add: img_def cat_def)
    then show ?thesis
      by (intro conjI [OF res(1)] exI [of _ ?doc] exI [of _ img] exI [of _ c])
  next
    case (Some lines)
    obtain ys pr where ry: "read_yolo_annotations pint pf lines = (ys, pr)"
      by (cases "read_yolo_annotations pint pf lines") auto
    obtain r0 anns wf where ca: "convert_annotations ri tm i c info ys ([], w2) = (r0, anns, wf)"
      by (metis prod_cases3)
    from convert_annotations_props [OF ca] have r0: "r0 = None"
      and an: "\<forall>a \<in> set anns. ae_image_id a = i \<and> ae_category_id a = c"
      by auto
    from run have res: "r = None"
      "files' = files(path_join odir (splitext_root f @ ''.json'') \<mapsto>
                  \<lparr>t_images = [img], t_annotations = anns, t_categories = [cat]\<rparr>)"
      "out' = out @ printed @ pr @ [Generated (path_join odir (splitext_root f @ ''.json'')) (length anns)]"
      by (simp_all add: generate_individual_json_def gi g1 g2 Some ry ca r0 Let_def img_def cat_def)
    let ?doc = "\<lparr>t_images = [img], t_annotations = anns, t_categories = [cat]\<rparr>"
    have "files' = files(path_join odir (splitext_root f @ ''.json'') \<mapsto> ?doc)
        \<and> t_images ?doc = [img] \<and> ie_file_name img = f
        \<and> map cat_id (t_categories ?doc) = [c]
        \<and> (\<forall>a \<in> set (t_annotations ?doc). ae_image_id a = ie_id img \<and> ae_category_id a = c)
        \<and> (decode inp f = None \<longrightarrow> ie_width img = 640 \<and> ie_height img = 640
              \<and> Error_reading_image f \<in> set out')
        \<and> (label_file inp (splitext_root f @ ''.txt'') = None \<longrightarrow>
              t_annotations ?doc = [] \<and> Warning_label_file_not_found f \<in> set out')"
      using res fb an Some by (simp add: img_def cat_def)
    then show ?thesis
      by (intro conjI [OF res(1)] exI [of _ ?doc] exI [of _ img] exI [of _ c])
  qed
qed

lemma generate_individual_json_raises:
  "getsize inp f = None \<Longrightarrow>
   generate_individual_json pint pf ri tm inp f odir (files, out, w) =
     (Some OSError, (files, out @ [Error_reading_image f], w))"
  by (cases "decode inp f") (auto simp: generate_individual_json_def get_image_info_def)

lemma generate_individual_json_written:
  assumes run: "generate_individual_json pint pf ri tm inp f odir (files, out, w) = (None, (files', out', w'))"
  shows "\<exists>doc img c.
        files' = files(path_join odir (splitext_root f @ ''.json'') \<mapsto> doc)
        \<and> t_images doc = [img] \<and> ie_file_name img = f
        \<and> map cat_id (t_categories doc) = [c]
        \<and> (\<forall>a \<in> set (t_annotations doc). ae_image_id a = ie_id img \<and> ae_category_id a = c)"
proof -
  have sz: "getsize inp f \<noteq> None"
  proof
    assume "getsize inp f = None"
    from generate_individual_json_raises [OF this, of pint pf ri tm odir files out w] run
    show False by simp
  qed
  from generate_individual_json_props [OF run sz] obtain doc img c where
    "files' = files(path_join odir (splitext_root f @ ''.json'') \<mapsto> doc)
        \<and> t_images doc = [img] \<and> ie_file_name img = f
        \<and> map cat_id (t_categories doc) = [c]
        \<and> (\<forall>a \<in> set (t_annotations doc). ae_image_id a = ie_id img \<and> ae_category_id a = c)"
    by (elim conjE exE) (rule that, intro conjI)
  then show ?thesis by (intro exI [of _ doc] exI [of _ img] exI [of _ c])
qed

subsection \<open>Missing label files\<close>

text \<open>
  C7 (amended). For every selected image whose label file is missing, the batch
  converter, when every selected image can be decoded and the reading of no label file
  of a selected image raises, writes a document whose images list holds that image's
  record and whose annotations list holds no entry with that record's id; it ends
  without an exception and prints its two summary lines only. The single-image
  generator, for an image whose size can be read and whose label file is missing, ends
  without an exception, writes a document with the image's record and no annotation,
  and prints a warning.
\<close>

theorem c7_missing_label_file:
  "(p \<in> set (collect_image_paths (listdir inp) stems)
      \<and> label_file inp (stem p @ ''.txt'') = None
      \<and> (\<forall>q \<in> set (collect_image_paths (listdir inp) stems). decode inp q \<noteq> None
            \<and> (\<exists>rows. read_yolo_labels_cc pf fi (label_file inp (stem q @ ''.txt'')) = Inr rows))
    \<longrightarrow> (\<exists>doc img.
           convert_to_coco pf fi inp out_json stems (files, out) =
             (None, (files(out_json \<mapsto> doc),
                     out @ [Found_images_to_convert (length (images doc)),
                            Saved_COCO_JSON (length (images doc)) (length (annotations doc)) out_json]))
           \<and> img \<in> set (images doc) \<and> img_file_name img = p
           \<and> (\<forall>a \<in> set (annotations doc). ann_image_id a \<noteq> img_id img)))
   \<and> (label_file inp (splitext_root f @ ''.txt'') = None \<and> getsize inp f \<noteq> None
      \<and> generate_individual_json pint pf ri tm inp f odir (gfiles, gout, w) = (r, (gfiles', gout', w'))
    \<longrightarrow> r = None
        \<and> (\<exists>doc img.
             gfiles' (path_join odir (splitext_root f @ ''.json'')) = Some doc
             \<and> t_images doc = [img] \<and> ie_file_name img = f \<and> t_annotations doc = []
             \<and> Warning_label_file_not_found f \<in> set gout'))"
proof (intro conjI impI)
  assume a: "p \<in> set (collect_image_paths (listdir inp) stems)
      \<and> label_file inp (stem p @ ''.txt'') = None
      \<and> (\<forall>q \<in> set (collect_image_paths (listdir inp) stems). decode inp q \<noteq> None
            \<and> (\<exists>rows. read_yolo_labels_cc pf fi (label_file inp (stem q @ ''.txt'')) = Inr rows))"
  define ps where "ps = collect_image_paths (listdir inp) stems"
  let ?es = "enumerate1 ps"
  have "\<forall>ip \<in> set ?es. decode inp (snd ip) \<noteq> None
       \<and> (\<exists>rows. read_yolo_labels_cc pf fi (label_file inp (stem (snd ip) @ ''.txt'')) = Inr rows)"
  proof
    fix ip assume "ip \<in> set ?es"
    then have "snd ip \<in> set (map snd ?es)" by simp
    then have "snd ip \<in> set ps" by (simp add: enumerate1_snd)
    then show "decode inp (snd ip) \<noteq> None
       \<and> (\<exists>rows. read_yolo_labels_cc pf fi (label_file inp (stem (snd ip) @ ''.txt'')) = Inr rows)"
      using a by (simp add: ps_def)
  qed
  from convert_images_ok [OF this] obtain imgs anns k where
    ci: "convert_images pf fi inp ?es ([], [], 1) = Inr (imgs, anns, k)"
    by (metis prod_cases3)
  from convert_images_props [OF ci] have
    im: "map (\<lambda>im. (img_id im, img_file_name im)) imgs = ?es"
    and an: "\<forall>a \<in> set anns. \<exists>q rows. (ann_image_id a, q) \<in> set ?es
               \<and> read_yolo_labels_cc pf fi (label_file inp (stem q @ ''.txt'')) = Inr rows
               \<and> rows \<noteq> []"
    by auto
  define doc where "doc = build_coco_dict\<lparr>images := imgs, annotations := anns\<rparr>"
  have len: "length imgs = length ps"
  proof -
    have "length (map (\<lambda>im. (img_id im, img_file_name im)) imgs) = length (map snd ?es)"
      by (simp add: im)
    then show ?thesis by (simp add: enumerate1_snd)
  qed
  have run: "convert_to_coco pf fi inp out_json stems (files, out) =
             (None, (files(out_json \<mapsto> doc),
                     out @ [Found_images_to_convert (length (images doc)),
                            Saved_COCO_JSON (length (images doc)) (length (annotations doc)) out_json]))"
    unfolding convert_to_coco_def ps_def [symmetric] by (simp add: ci len Let_def doc_def)
  from a have "p \<in> set ps" by (simp add: ps_def)
  then have "\<exists>i. (i, p) \<in> set ?es" by (rule enumerate1_mem)
  then obtain i where ip: "(i, p) \<in> set ?es" ..
  then have "(i, p) \<in> set (map (\<lambda>im. (img_id im, img_file_name im)) imgs)" by (simp add: im)
  then obtain img where img: "img \<in> set imgs" "img_id img = i" "img_file_name img = p" by auto
  have norows: "read_yolo_labels_cc pf fi (label_file inp (stem p @ ''.txt'')) = Inr []"
    using a by (simp add: read_yolo_labels_cc_def)
  have none: "\<forall>a \<in> set anns. ann_image_id a \<noteq> img_id img"
  proof
    fix a assume "a \<in> set anns"
    with an obtain q rows where q: "(ann_image_id a, q) \<in> set ?es"
      "read_yolo_labels_cc pf fi (label_file inp (stem q @ ''.txt'')) = Inr rows" "rows \<noteq> []"
      by blast
    show "ann_image_id a \<noteq> img_id img"
    proof
      assume "ann_image_id a = img_id img"
      then have "(i, q) \<in> set ?es" using q(1) img(2) by simp
      with ip have "p = q" by (rule enumerate1_unique)
      then show False using q(2) q(3) norows by simp
    qed
  qed
  have "convert_to_coco pf fi inp out_json stems (files, out) =
             (None, (files(out_json \<mapsto> doc),
                     out @ [Found_images_to_convert (length (images doc)),
                            Saved_COCO_JSON (length (images doc)) (length (annotations doc)) out_json]))
           \<and> img \<in> set (images doc) \<and> img_file_name img = p
           \<and> (\<forall>a \<in> set (annotations doc). ann_image_id a \<noteq> img_id img)"
    using run img none by (simp add: doc_def)
  then show "\<exists>doc img.
           convert_to_coco pf fi inp out_json stems (files, out) =
             (None, (files(out_json \<mapsto> doc),
                     out @ [Found_images_to_convert (length (images doc)),
                            Saved_COCO_JSON (length (images doc)) (length (annotations doc)) out_json]))
           \<and> img \<in> set (images doc) \<and> img_file_name img = p
           \<and> (\<forall>a \<in> set (annotations doc). ann_image_id a \<noteq> img_id img)"
    by (intro exI [of _ doc] exI [of _ img])
next
  assume b: "label_file inp (splitext_root f @ ''.txt'') = None \<and> getsize inp f \<noteq> None
      \<and> generate_individual_json pint pf ri tm inp f odir (gfiles, gout, w) = (r, (gfiles', gout', w'))"
  then have run: "generate_individual_json pint pf ri tm inp f odir (gfiles, gout, w) = (r, (gfiles', gout', w'))"
    and sz: "getsize inp f \<noteq> None"
    by simp_all
  from generate_individual_json_props [OF run sz] b show "r = None" by simp
  from generate_individual_json_props [OF run sz] b obtain doc img where
    "gfiles' = gfiles(path_join odir (splitext_root f @ ''.json'') \<mapsto> doc)"
    "t_images doc = [img]" "ie_file_name img = f" "t_annotations doc = []"
    "Warning_label_file_not_found f \<in> set gout'"
    by auto
  then have "gfiles' (path_join odir (splitext_root f @ ''.json'')) = Some doc
             \<and> t_images doc = [img] \<and> ie_file_name img = f \<and> t_annotations doc = []
             \<and> Warning_label_file_not_found f \<in> set gout'"
    by simp
  then show "\<exists>doc img.
             gfiles' (path_join odir (splitext_root f @ ''.json'')) = Some doc
             \<and> t_images doc = [img] \<and> ie_file_name img = f \<and> t_annotations doc = []
             \<and> Warning_label_file_not_found f \<in> set gout'"
    by (intro exI [of _ doc] exI [of _ img])
qed

text \<open>
  Two images, \<^verbatim>\<open>a.jpg\<close> with a label file of two lines and \<^verbatim>\<open>b.jpg\<close> without a
  label file: the document of the batch converter holds the record of \<^verbatim>\<open>b.jpg\<close> and no
  annotation with its id, and the single-image generator writes the document of
  \<^verbatim>\<open>b.jpg\<close> with a warning.
\<close>

theorem c7_missing_label_file_witness:
  "(\<exists>doc img.
      convert_to_coco decimal_float decimal_is_inf
        \<lparr>listdir = [''b.jpg'', ''a.jpg''], decode = (\<lambda>n. Some (100, 200)),
         getsize = (\<lambda>n. Some 1),
         label_file = (\<lambda>n. if n = ''a.txt''
                             then Some [''3 0.5 0.5 0.2 0.4'', ''7 0.1 0.1 0.1 0.1''] else None),
         split_file = (\<lambda>n. None)\<rparr>
        ''out.json'' None (Map.empty, []) =
        (None, ([''out.json'' \<mapsto> doc],
                [] @ [Found_images_to_convert (length (images doc)),
                      Saved_COCO_JSON (length (images doc)) (length (annotations doc)) ''out.json'']))
      \<and> img \<in> set (images doc) \<and> img_file_name img = ''b.jpg''
      \<and> (\<forall>a \<in> set (annotations doc). ann_image_id a \<noteq> img_id img))
   \<and> (\<exists>r gfiles' gout' w'.
        generate_individual_json decimal_int decimal_float
          (\<lambda>w. (1000000 + int w, Suc w)) (\<lambda>w. (int w, Suc w))
          \<lparr>listdir = [''b.jpg'', ''a.jpg''], decode = (\<lambda>n. Some (100, 200)),
           getsize = (\<lambda>n. Some 1),
           label_file = (\<lambda>n. if n = ''a.txt''
                               then Some [''3 0.5 0.5 0.2 0.4'', ''7 0.1 0.1 0.1 0.1''] else None),
           split_file = (\<lambda>n. None)\<rparr>
          ''b.jpg'' ''data/images'' (Map.empty, [], 0 :: nat) = (r, (gfiles', gout', w'))
        \<and> r = None
        \<and> (\<exists>doc img.
             gfiles' (path_join ''data/images'' (splitext_root ''b.jpg'' @ ''.json'')) = Some doc
             \<and> t_images doc = [img] \<and> ie_file_name img = ''b.jpg'' \<and> t_annotations doc = []
             \<and> Warning_label_file_not_found ''b.jpg'' \<in> set gout'))"
proof -
  define inp where "inp = \<lparr>listdir = [''b.jpg'', ''a.jpg''], decode = (\<lambda>n. Some (100 :: int, 200 :: int)),
         getsize = (\<lambda>n. Some (1 :: int)),
         label_file = (\<lambda>n. if n = ''a.txt''
                             then Some [''3 0.5 0.5 0.2 0.4'', ''7 0.1 0.1 0.1 0.1''] else None),
         split_file = (\<lambda>n. None :: string list option)\<rparr>"
  have sel: "collect_image_paths (listdir inp) None = [''a.jpg'', ''b.jpg'']"
    unfolding inp_def by code_simp
  have dec: "decode inp q \<noteq> None" for q by (simp add: inp_def)
  have ra: "read_yolo_labels_cc decimal_float decimal_is_inf (label_file inp (stem ''a.jpg'' @ ''.txt''))
              = Inr [(3, 1/2, 1/2, 1/5, 2/5), (7, 1/10, 1/10, 1/10, 1/10)]"
    unfolding inp_def by code_simp
  have lb: "label_file inp (stem ''b.jpg'' @ ''.txt'') = None"
    unfolding inp_def by code_simp
  have rb: "read_yolo_labels_cc decimal_float decimal_is_inf (label_file inp (stem ''b.jpg'' @ ''.txt''))
              = Inr []"
    by (simp only: lb read_yolo_labels_cc_def option.case)
  have all: "\<forall>q \<in> set (collect_image_paths (listdir inp) None). decode inp q \<noteq> None
            \<and> (\<exists>rows. read_yolo_labels_cc decimal_float decimal_is_inf
                        (label_file inp (stem q @ ''.txt'')) = Inr rows)"
  proof
    fix q assume "q \<in> set (collect_image_paths (listdir inp) None)"
    then have "q = ''a.jpg'' \<or> q = ''b.jpg''" by (simp only: sel) simp
    then show "decode inp q \<noteq> None
            \<and> (\<exists>rows. read_yolo_labels_cc decimal_float decimal_is_inf
                        (label_file inp (stem q @ ''.txt'')) = Inr rows)"
      using dec ra rb by blast
  qed
  have mem: "''b.jpg'' \<in> set (collect_image_paths (listdir inp) None)"
    by (simp only: sel) simp
  have h1: "''b.jpg'' \<in> set (collect_image_paths (listdir inp) None)
      \<and> label_file inp (stem ''b.jpg'' @ ''.txt'') = None
      \<and> (\<forall>q \<in> set (collect_image_paths (listdir inp) None). decode inp q \<noteq> None
            \<and> (\<exists>rows. read_yolo_labels_cc decimal_float decimal_is_inf
                        (label_file inp (stem q @ ''.txt'')) = Inr rows))"
    using mem lb all by (intro conjI)
  have part1: "\<exists>doc img.
      convert_to_coco decimal_float decimal_is_inf inp ''out.json'' None (Map.empty, []) =
        (None, ([''out.json'' \<mapsto> doc],
                [] @ [Found_images_to_convert (length (images doc)),
                      Saved_COCO_JSON (length (images doc)) (length (annotations doc)) ''out.json'']))
      \<and> img \<in> set (images doc) \<and> img_file_name img = ''b.jpg''
      \<and> (\<forall>a \<in> set (annotations doc). ann_image_id a \<noteq> img_id img)"
    by (rule c7_missing_label_file [THEN conjunct1, THEN mp, OF h1])
  define X where "X = generate_individual_json decimal_int decimal_float
          (\<lambda>w. (1000000 + int w, Suc w)) (\<lambda>w. (int w, Suc w)) inp
          ''b.jpg'' ''data/images'' (Map.empty, [], 0 :: nat)"
  obtain r gfiles' gout' w' where X: "X = (r, (gfiles', gout', w'))"
    by (metis prod_cases4)
  have lg: "label_file inp (splitext_root ''b.jpg'' @ ''.txt'') = None"
    unfolding inp_def by code_simp
  have sz: "getsize inp ''b.jpg'' \<noteq> None" by (simp add: inp_def)
  have run: "generate_individual_json decimal_int decimal_float
          (\<lambda>w. (1000000 + int w, Suc w)) (\<lambda>w. (int w, Suc w)) inp
          ''b.jpg'' ''data/images'' (Map.empty, [], 0 :: nat) = (r, (gfiles', gout', w'))"
    using X unfolding X_def .
  have h2: "label_file inp (splitext_root ''b.jpg'' @ ''.txt'') = None \<and> getsize inp ''b.jpg'' \<noteq> None
      \<and> generate_individual_json decimal_int decimal_float
          (\<lambda>w. (1000000 + int w, Suc w)) (\<lambda>w. (int w, Suc w)) inp
          ''b.jpg'' ''data/images'' (Map.empty, [], 0 :: nat) = (r, (gfiles', gout', w'))"
    using lg sz run by (intro conjI)
  have res: "r = None
        \<and> (\<exists>doc img.
             gfiles' (path_join ''data/images'' (splitext_root ''b.jpg'' @ ''.json'')) = Some doc
             \<and> t_images doc = [img] \<and> ie_file_name img = ''b.jpg'' \<and> t_annotations doc = []
             \<and> Warning_label_file_not_found ''b.jpg'' \<in> set gout')"
    by (rule c7_missing_label_file [THEN conjunct2, THEN mp, OF h2])
  have "generate_individual_json decimal_int decimal_float
          (\<lambda>w. (1000000 + int w, Suc w)) (\<lambda>w. (int w, Suc w)) inp
          ''b.jpg'' ''data/images'' (Map.empty, [], 0 :: nat) = (r, (gfiles', gout', w'))
        \<and> r = None
        \<and> (\<exists>doc img.
             gfiles' (path_join ''data/images'' (splitext_root ''b.jpg'' @ ''.json'')) = Some doc
             \<and> t_images doc = [img] \<and> ie_file_name img = ''b.jpg'' \<and> t_annotations doc = []
             \<and> Warning_label_file_not_found ''b.jpg'' \<in> set gout')"
    using run res by (rule conjI)
  then have part2: "\<exists>r gfiles' gout' w'.
        generate_individual_json decimal_int decimal_float
          (\<lambda>w. (1000000 + int w, Suc w)) (\<lambda>w. (int w, Suc w)) inp
          ''b.jpg'' ''data/images'' (Map.empty, [], 0 :: nat) = (r, (gfiles', gout', w'))
        \<and> r = None
        \<and> (\<exists>doc img.
             gfiles' (path_join ''data/images'' (splitext_root ''b.jpg'' @ ''.json'')) = Some doc
             \<and> t_images doc = [img] \<and> ie_file_name img = ''b.jpg'' \<and> t_annotations doc = []
             \<and> Warning_label_file_not_found ''b.jpg'' \<in> set gout')"
    by (intro exI [of _ r] exI [of _ gfiles'] exI [of _ gout'] exI [of _ w'])
  from part1 part2 show ?thesis unfolding inp_def by (rule conjI)
qed

text \<open>
  The batch converter prints no warning for an image without a label file: its output
  for a directory of one such image is the two summary lines.
\<close>

theorem c7_no_warning_counterexample:
  "snd (snd (convert_to_coco decimal_float decimal_is_inf
     \<lparr>listdir = [''a.jpg''], decode = (\<lambda>n. Some (100, 200)), getsize = (\<lambda>n. Some 1),
      label_file = (\<lambda>n. None), split_file = (\<lambda>n. None)\<rparr>
     ''out.json'' None (Map.empty, [])))
   = [Found_images_to_convert 1, Saved_COCO_JSON 1 0 ''out.json'']"
  by code_simp

text \<open>
  When the size of an image cannot be read, \<^verbatim>\<open>generate_individual_json\<close> raises and
  writes nothing; the loop of the command prints a line and goes on with the next image.
\<close>

lemma process_images_unreadable_size:
  "getsize inp f = None \<Longrightarrow>
   process_images pint pf ri tm inp n odir ((i, f) # rest) (files, out, w) =
     process_images pint pf ri tm inp n odir rest
       (files, out @ [Processing i n f, Error_reading_image f, Error_processing f], w)"
  by (simp add: generate_individual_json_raises)

subsection \<open>Identifiers in one document\<close>

text \<open>
  C9. In every document that \<^verbatim>\<open>convert_to_coco\<close> writes, and in every document that
  \<^verbatim>\<open>generate_individual_json\<close> writes, the ids of the image records are pairwise
  distinct, the image id of each annotation is the id of an image record of the
  document, and the category id of each annotation is the id of the one category of
  the document, whatever the class index of the label line.
\<close>

theorem c9_document_invariants:
  "(convert_to_coco pf fi inp out_json stems (files, out) = (None, (files', out'))
    \<longrightarrow> (\<exists>doc. files' out_json = Some doc
          \<and> distinct (map img_id (images doc))
          \<and> (\<forall>a \<in> set (annotations doc).
                ann_image_id a \<in> img_id ` set (images doc) \<and> ann_category_id a = 1)
          \<and> map cat_id (categories doc) = [1]))
   \<and> (generate_individual_json pint pf ri tm inp f odir (gfiles, gout, w) = (None, (gfiles', gout', w'))
    \<longrightarrow> (\<exists>doc c.
          gfiles' (path_join odir (splitext_root f @ ''.json'')) = Some doc
          \<and> distinct (map ie_id (t_images doc))
          \<and> (\<forall>a \<in> set (t_annotations doc).
                ae_image_id a \<in> ie_id ` set (t_images doc) \<and> ae_category_id a = c)
          \<and> map cat_id (t_categories doc) = [c]))"
proof (intro conjI impI)
  assume run: "convert_to_coco pf fi inp out_json stems (files, out) = (None, (files', out'))"
  define ps where "ps = collect_image_paths (listdir inp) stems"
  show "\<exists>doc. files' out_json = Some doc
          \<and> distinct (map img_id (images doc))
          \<and> (\<forall>a \<in> set (annotations doc).
                ann_image_id a \<in> img_id ` set (images doc) \<and> ann_category_id a = 1)
          \<and> map cat_id (categories doc) = [1]"
  proof (cases "convert_images pf fi inp (enumerate1 ps) ([], [], 1)")
    case (Inl e)
    from run have False
      unfolding convert_to_coco_def ps_def [symmetric] by (simp add: Inl Let_def)
    then show ?thesis ..
  next
    case (Inr res)
    obtain imgs anns k where res: "res = (imgs, anns, k)" by (metis prod_cases3)
    have ci: "convert_images pf fi inp (enumerate1 ps) ([], [], 1) = Inr (imgs, anns, k)"
      using Inr res by simp
    define doc where "doc = build_coco_dict\<lparr>images := imgs, annotations := anns\<rparr>"
    from run have fs: "files' = files(out_json \<mapsto> doc)"
      unfolding convert_to_coco_def ps_def [symmetric] by (simp add: ci Let_def doc_def)
    from convert_images_props [OF ci] have
      im: "map (\<lambda>im. (img_id im, img_file_name im)) imgs = enumerate1 ps"
      and an: "\<forall>a \<in> set anns. ann_category_id a = 1
                 \<and> (\<exists>q. (ann_image_id a, q) \<in> set (enumerate1 ps))"
      by auto
    have "map fst (map (\<lambda>im. (img_id im, img_file_name im)) imgs) = map fst (enumerate1 ps)"
      by (simp only: im)
    then have ids: "map img_id imgs = map fst (enumerate1 ps)" by (simp add: comp_def)
    have d: "distinct (map img_id imgs)" by (simp only: ids enumerate1_distinct)
    have mem: "ann_image_id a \<in> img_id ` set imgs \<and> ann_category_id a = 1" if "a \<in> set anns" for a
    proof -
      from an that obtain q where "(ann_image_id a, q) \<in> set (enumerate1 ps)"
        and c: "ann_category_id a = 1" by blast
      then have "ann_image_id a \<in> set (map fst (enumerate1 ps))" by force
      then have "ann_image_id a \<in> set (map img_id imgs)" by (simp only: ids)
      then show ?thesis using c by simp
    qed
    have "files' out_json = Some doc
          \<and> distinct (map img_id (images doc))
          \<and> (\<forall>a \<in> set (annotations doc).
                ann_image_id a \<in> img_id ` set (images doc) \<and> ann_category_id a = 1)
          \<and> map cat_id (categories doc) = [1]"
      using fs d mem by (simp add: doc_def build_coco_dict_def)
    then show ?thesis by (rule exI [of _ doc])
  qed
next
  assume run: "generate_individual_json pint pf ri tm inp f odir (gfiles, gout, w) = (None, (gfiles', gout', w'))"
  from generate_individual_json_written [OF run] obtain doc img c where
    p: "gfiles' = gfiles(path_join odir (splitext_root f @ ''.json'') \<mapsto> doc)"
       "t_images doc = [img]"
       "map cat_id (t_categories doc) = [c]"
       "\<forall>a \<in> set (t_annotations doc). ae_image_id a = ie_id img \<and> ae_category_id a = c"
    by (elim conjE exE)
  have "gfiles' (path_join odir (splitext_root f @ ''.json'')) = Some doc
          \<and> distinct (map ie_id (t_images doc))
          \<and> (\<forall>a \<in> set (t_annotations doc).
                ae_image_id a \<in> ie_id ` set (t_images doc) \<and> ae_category_id a = c)
          \<and> map cat_id (t_categories doc) = [c]"
    using p by simp
  then show "\<exists>doc c.
          gfiles' (path_join odir (splitext_root f @ ''.json'')) = Some doc
          \<and> distinct (map ie_id (t_images doc))
          \<and> (\<forall>a \<in> set (t_annotations doc).
                ae_image_id a \<in> ie_id ` set (t_images doc) \<and> ae_category_id a = c)
          \<and> map cat_id (t_categories doc) = [c]"
    by (intro exI [of _ doc] exI [of _ c])
qed

theorem c9_document_invariants_witness:
  "(\<exists>files' out'.
      convert_to_coco decimal_float decimal_is_inf
        \<lparr>listdir = [''b.jpg'', ''a.jpg''], decode = (\<lambda>n. Some (100, 200)),
         getsize = (\<lambda>n. Some 1),
         label_file = (\<lambda>n. if n = ''a.txt'' then Some [''3 0.5 0.5 0.2 0.4'', ''7 0.1 0.1 0.1 0.1'']
                             else None),
         split_file = (\<lambda>n. None)\<rparr>
        ''out.json'' None (Map.empty, []) = (None, (files', out'))
      \<and> (\<exists>doc. files' ''out.json'' = Some doc
          \<and> distinct (map img_id (images doc))
          \<and> (\<forall>a \<in> set (annotations doc).
                ann_image_id a \<in> img_id ` set (images doc) \<and> ann_category_id a = 1)
          \<and> map cat_id (categories doc) = [1]))
   \<and> (\<exists>gfiles' gout' w'.
        generate_individual_json decimal_int decimal_float
          (\<lambda>w. (1000000 + int w, Suc w)) (\<lambda>w. (int w, Suc w))
          \<lparr>listdir = [''b.jpg'', ''a.jpg''], decode = (\<lambda>n. Some (100, 200)),
           getsize = (\<lambda>n. Some 1),
           label_file = (\<lambda>n. if n = ''a.txt'' then Some [''3 0.5 0.5 0.2 0.4'', ''7 0.1 0.1 0.1 0.1'']
                               else None),
           split_file = (\<lambda>n. None)\<rparr>
          ''a.jpg'' ''data/images'' (Map.empty, [], 0 :: nat) = (None, (gfiles', gout', w'))
        \<and> (\<exists>doc c.
          gfiles' (path_join ''data/images'' (splitext_root ''a.jpg'' @ ''.json'')) = Some doc
          \<and> distinct (map ie_id (t_images doc))
          \<and> (\<forall>a \<in> set (t_annotations doc).
                ae_image_id a \<in> ie_id ` set (t_images doc) \<and> ae_category_id a = c)
          \<and> map cat_id (t_categories doc) = [c]))"
proof -
  define inp where "inp = \<lparr>listdir = [''b.jpg'', ''a.jpg''], decode = (\<lambda>n. Some (100 :: int, 200 :: int)),
         getsize = (\<lambda>n. Some (1 :: int)),
         label_file = (\<lambda>n. if n = ''a.txt'' then Some [''3 0.5 0.5 0.2 0.4'', ''7 0.1 0.1 0.1 0.1'']
                             else None),
         split_file = (\<lambda>n. None :: string list option)\<rparr>"
  define X where "X = convert_to_coco decimal_float decimal_is_inf inp ''out.json'' None (Map.empty, [])"
  have f: "fst X = None" unfolding X_def inp_def by code_simp
  obtain r files' out' where X: "X = (r, (files', out'))" by (metis prod_cases3)
  with f have r: "r = None" by simp
  have h: "convert_to_coco decimal_float decimal_is_inf inp ''out.json'' None (Map.empty, [])
             = (None, (files', out'))"
    using X r unfolding X_def by simp
  have res: "\<exists>doc. files' ''out.json'' = Some doc
          \<and> distinct (map img_id (images doc))
          \<and> (\<forall>a \<in> set (annotations doc).
                ann_image_id a \<in> img_id ` set (images doc) \<and> ann_category_id a = 1)
          \<and> map cat_id (categories doc) = [1]"
    by (rule c9_document_invariants [THEN conjunct1, THEN mp, OF h])
  have "convert_to_coco decimal_float decimal_is_inf inp ''out.json'' None (Map.empty, [])
          = (None, (files', out'))
      \<and> (\<exists>doc. files' ''out.json'' = Some doc
          \<and> distinct (map img_id (images doc))
          \<and> (\<forall>a \<in> set (annotations doc).
                ann_image_id a \<in> img_id ` set (images doc) \<and> ann_category_id a = 1)
          \<and> map cat_id (categories doc) = [1])"
    using h res by (rule conjI)
  then have part1: "\<exists>files' out'.
      convert_to_coco decimal_float decimal_is_inf inp ''out.json'' None (Map.empty, [])
        = (None, (files', out'))
      \<and> (\<exists>doc. files' ''out.json'' = Some doc
          \<and> distinct (map img_id (images doc))
          \<and> (\<forall>a \<in> set (annotations doc).
                ann_image_id a \<in> img_id ` set (images doc) \<and> ann_category_id a = 1)
          \<and> map cat_id (categories doc) = [1])"
    by (intro exI [of _ files'] exI [of _ out'])
  define Y where "Y = generate_individual_json decimal_int decimal_float
          (\<lambda>w. (1000000 + int w, Suc w)) (\<lambda>w. (int w, Suc w)) inp
          ''a.jpg'' ''data/images'' (Map.empty, [], 0 :: nat)"
  have g: "fst Y = None" unfolding Y_def inp_def by code_simp
  obtain s gfiles' gout' w' where Y: "Y = (s, (gfiles', gout', w'))" by (metis prod_cases4)
  with g have s: "s = None" by simp
  have h2: "generate_individual_json decimal_int decimal_float
          (\<lambda>w. (1000000 + int w, Suc w)) (\<lambda>w. (int w, Suc w)) inp
          ''a.jpg'' ''data/images'' (Map.empty, [], 0 :: nat) = (None, (gfiles', gout', w'))"
    using Y s unfolding Y_def by simp
  have res2: "\<exists>doc c.
          gfiles' (path_join ''data/images'' (splitext_root ''a.jpg'' @ ''.json'')) = Some doc
          \<and> distinct (map ie_id (t_images doc))
          \<and> (\<forall>a \<in> set (t_annotations doc).
                ae_image_id a \<in> ie_id ` set (t_images doc) \<and> ae_category_id a = c)
          \<and> map cat_id (t_categories doc) = [c]"
    by (rule c9_document_invariants [THEN conjunct2, THEN mp, OF h2])
  have "generate_individual_json decimal_int decimal_float
          (\<lambda>w. (1000000 + int w, Suc w)) (\<lambda>w. (int w, Suc w)) inp
          ''a.jpg'' ''data/images'' (Map.empty, [], 0 :: nat) = (None, (gfiles', gout', w'))
        \<and> (\<exists>doc c.
          gfiles' (path_join ''data/images'' (splitext_root ''a.jpg'' @ ''.json'')) = Some doc
          \<and> distinct (map ie_id (t_images doc))
          \<and> (\<forall>a \<in> set (t_annotations doc).
                ae_image_id a \<in> ie_id ` set (t_images doc) \<and> ae_category_id a = c)
          \<and> map cat_id (t_categories doc) = [c])"
    using h2 res2 by (rule conjI)
  then have part2: "\<exists>gfiles' gout' w'.
        generate_individual_json decimal_int decimal_float
          (\<lambda>w. (1000000 + int w, Suc w)) (\<lambda>w. (int w, Suc w)) inp
          ''a.jpg'' ''data/images'' (Map.empty, [], 0 :: nat) = (None, (gfiles', gout', w'))
        \<and> (\<exists>doc c.
          gfiles' (path_join ''data/images'' (splitext_root ''a.jpg'' @ ''.json'')) = Some doc
          \<and> distinct (map ie_id (t_images doc))
          \<and> (\<forall>a \<in> set (t_annotations doc).
                ae_image_id a \<in> ie_id ` set (t_images doc) \<and> ae_category_id a = c)
          \<and> map cat_id (t_categories doc) = [c])"
    by (intro exI [of _ gfiles'] exI [of _ gout'] exI [of _ w'])
  from part1 part2 show ?thesis unfolding inp_def by (rule conjI)
qed

text \<open>
  A run of the batch converter on two images, one with two label lines of class 3 and
  7: both annotations belong to image 1 (the first in name order) and have category 1.
\<close>

lemma convert_to_coco_example:
  "map (\<lambda>a. (ann_id a, ann_image_id a, ann_category_id a, ann_bbox a, ann_area a))
     (case fst (snd (convert_to_coco decimal_float decimal_is_inf
        \<lparr>listdir = [''b.jpg'', ''a.jpg''], decode = (\<lambda>n. Some (100, 200)),
         getsize = (\<lambda>n. Some 1),
         label_file = (\<lambda>n. if n = ''a.txt'' then Some [''3 0.5 0.5 0.2 0.4'', ''7 0.1 0.1 0.1 0.1'']
                             else None),
         split_file = (\<lambda>n. None)\<rparr>
        ''out.json'' None (Map.empty, []))) ''out.json'' of None \<Rightarrow> [] | Some doc \<Rightarrow> annotations doc)
   = [(1, 1, 1, [40, 60, 20, 80], 1600), (2, 1, 1, [5, 10, 10, 20], 200)]"
  by code_simp

end
